theory Spec2Isabelle
  imports Complex_Main
begin

section \<open>IceNetETL: the blob-triggered forecast processor\<close>

text \<open>
  A shallow embedding of \<^verbatim>\<open>src/azfunctions/InputBlobTrigger/processor.py\<close>
  (class \<^verbatim>\<open>Processor\<close>). Conventions of the embedding:
  \<^item> Python and NumPy floats are exact rationals (\<open>rat\<close>); a missing value (NaN) of a
    floating-point column is \<open>None\<close>. Rounding error is outside the model.
  \<^item> Python integers are \<open>int\<close>; counts and sizes are \<open>nat\<close>.
  \<^item> The PostgreSQL database the processor talks to is an explicit state: each table is
    its list of rows in insertion order (\<open>None\<close> while the relation does not exist),
    each \<^verbatim>\<open>SERIAL\<close> column has its sequence counter. A statement fails where
    PostgreSQL refuses it: on a relation that does not exist, on a value that an
    \<^verbatim>\<open>int4\<close> column cannot take (a number out of range, or NaN), and on a
    number that a \<^verbatim>\<open>float4\<close> column cannot take (one that overflows or
    underflows). A sequence is taken not to run out; the geometry functions of PostGIS
    are outside the model.
  \<^item> Every method starts on a connection that is in order, as a new invocation has it.
  \<^item> A method of the class takes the processor (with the database, the log and the
    monotonic clock it acts on) and gives an \<open>outcome\<close>: the final state, either
    returned normally or together with the exception that was raised.
\<close>

subsection \<open>Exceptions and outcomes\<close>

datatype error =
    ValueError
  | AttributeError
  | ZeroDivisionError
  | InsufficientGridError
  | UndefinedTable
  | NumericValueOutOfRange
  | OtherError

datatype 'a outcome = Returned 'a | Raised error 'a

fun state_of :: "'a outcome \<Rightarrow> 'a" where
  "state_of (Returned s) = s"
| "state_of (Raised e s) = s"

fun exception_of :: "'a outcome \<Rightarrow> error option" where
  "exception_of (Returned s) = None"
| "exception_of (Raised e s) = Some e"

subsection \<open>Numbers\<close>

text \<open>Python's \<^verbatim>\<open>int(x)\<close> on a float: truncation towards zero.\<close>

definition py_int :: "rat \<Rightarrow> int" where
  "py_int q = (if 0 \<le> q then \<lfloor>q\<rfloor> else \<lceil>q\<rceil>)"

subsection \<open>The helpers of \<^verbatim>\<open>utils\<close>\<close>

text \<open>
  Modelled from the spec: \<^verbatim>\<open>mean_step_size\<close> is imported from the module
  \<^verbatim>\<open>utils\<close>, which is not among the sources. Section 4.1: the mean absolute
  consecutive difference of an axis; the calculation requires at least 2 points and
  fails with \<^verbatim>\<open>InsufficientGridError\<close> otherwise.
\<close>

definition mean_step_size :: "rat list \<Rightarrow> error + rat" where
  "mean_step_size input_list =
     (if length input_list < 2 then Inl InsufficientGridError
      else Inr (sum_list (map2 (\<lambda>a b. \<bar>b - a\<bar>) input_list (tl input_list))
                / of_nat (length input_list - 1)))"

text \<open>
  Modelled from the spec: \<^verbatim>\<open>batches\<close> is imported from the module
  \<^verbatim>\<open>utils\<close>, which is not among the sources. Section 4.6: splits an ordered
  sequence into fixed-size chunks, the final chunk possibly shorter. (The callers
  divide by the chunk size before they call it, so the size 0 never reaches it; the
  equation gives no chunk there.)
\<close>

function batches :: "'a list \<Rightarrow> nat \<Rightarrow> 'a list list" where
  "batches iterable n =
     (if n = 0 \<or> iterable = [] then []
      else take n iterable # batches (drop n iterable) n)"
  by pat_completeness auto
termination
  by (relation "measure (\<lambda>(iterable, n). length iterable)") auto

subsection \<open>Cell geometries (lines 99-123 of \<^verbatim>\<open>update_geometries\<close>)\<close>

text \<open>
  A \<^verbatim>\<open>shapely\<close> polygon is the list of its vertices, as its well-known text
  prints them. The two geometry columns are kept symbolically, as the SQL expressions
  that build them.
\<close>

type_synonym polygon = "(int \<times> int) list"

datatype geometry =
    ST_GeomFromText polygon nat
  | ST_Transform geometry nat

type_synonym geometry_record = "int \<times> int \<times> polygon \<times> polygon"

text \<open>
  Lines 102 and 103: \<^verbatim>\<open>1000 * int(0.5 * mean_step_size(centroids_km))\<close>,
  on the step that \<^verbatim>\<open>mean_step_size\<close> returned.
\<close>

definition delta_m :: "rat \<Rightarrow> int" where
  "delta_m step_km = 1000 * py_int ((1 / 2) * step_km)"

text \<open>Lines 108 and 110: \<^verbatim>\<open>int(1000 * centroid_km)\<close>.\<close>

definition centroid_m :: "rat \<Rightarrow> int" where
  "centroid_m centroid_km = py_int (1000 * centroid_km)"

text \<open>Lines 111-122: the body of the inner loop, one record.\<close>

definition geometry_record :: "int \<Rightarrow> int \<Rightarrow> rat \<Rightarrow> rat \<Rightarrow> geometry_record" where
  "geometry_record x_delta_m y_delta_m centroid_x_km centroid_y_km =
     (let centroid_x_m = centroid_m centroid_x_km;
          centroid_y_m = centroid_m centroid_y_km;
          x_min_m = centroid_x_m - x_delta_m;
          x_max_m = centroid_x_m + x_delta_m;
          y_min_m = centroid_y_m - y_delta_m;
          y_max_m = centroid_y_m + y_delta_m;
          wkt = [(x_min_m, y_max_m), (x_max_m, y_max_m), (x_max_m, y_min_m),
                 (x_min_m, y_min_m), (x_min_m, y_max_m)]
      in (centroid_x_m, centroid_y_m, wkt, wkt))"

text \<open>Lines 106-122: the two nested loops, x outside, y inside.\<close>

definition records :: "int \<Rightarrow> int \<Rightarrow> rat list \<Rightarrow> rat list \<Rightarrow> geometry_record list" where
  "records x_delta_m y_delta_m centroids_x_km centroids_y_km =
     concat (map (\<lambda>centroid_x_km.
                    map (geometry_record x_delta_m y_delta_m centroid_x_km) centroids_y_km)
                 centroids_x_km)"

text \<open>
  Lines 101-123 as a whole (the Grid Geometry Deriver): both step sizes, then the
  records. An axis that is too short raises in \<^verbatim>\<open>mean_step_size\<close>, the x axis
  first.
\<close>

definition cell_geometries :: "rat list \<Rightarrow> rat list \<Rightarrow> error + geometry_record list" where
  "cell_geometries centroids_x_km centroids_y_km =
     (case mean_step_size centroids_x_km of
        Inl e \<Rightarrow> Inl e
      | Inr step_x \<Rightarrow>
          (case mean_step_size centroids_y_km of
             Inl e \<Rightarrow> Inl e
           | Inr step_y \<Rightarrow>
               Inr (records (delta_m step_x) (delta_m step_y)
                      centroids_x_km centroids_y_km)))"

definition centroid_pair :: "geometry_record \<Rightarrow> int \<times> int" where
  "centroid_pair r = (fst r, fst (snd r))"

subsection \<open>The decoded dataset\<close>

text \<open>
  The \<^verbatim>\<open>xarray\<close> dataset: its two centroid axes (kilometres) and the rows that
  \<^verbatim>\<open>to_dataframe()\<close> lists, one for each combination of the values of the
  dimensions, with the data variables at that place. \<open>time\<close> is a timestamp in
  seconds since the epoch; \<open>mean\<close> and \<open>stddev\<close> are the two data variables the
  processor reads, \<open>others\<close> any further data variables of the file.
\<close>

record entry =
  time :: int
  leadtime :: int
  xc :: rat
  yc :: rat
  mean :: "rat option"
  stddev :: "rat option"
  others :: "rat option list"

record dataset =
  xc_values :: "rat list"
  yc_values :: "rat list"
  to_dataframe :: "entry list"

text \<open>
  The blob handed to \<^verbatim>\<open>load\<close>: its name, and what
  \<^verbatim>\<open>xarray.open_dataset\<close> does with its bytes (the dataset, or the exception it
  raises).
\<close>

record input_stream =
  name :: string
  open_dataset :: "error + dataset"

subsection \<open>The database\<close>

text \<open>
  The rows of the three relations. In \<open>prediction_row\<close> and \<open>latest_row\<close> the
  columns carry a prefix, since the same column names occur in several relations.
  A table is its rows and the last value its \<^verbatim>\<open>SERIAL\<close> sequence gave out.
\<close>

record cell_row =
  cell_id :: int
  centroid_x :: int
  centroid_y :: int
  geom_6931 :: geometry
  geom_4326 :: geometry

record prediction_row =
  prediction_id :: int
  p_date :: int
  p_leadtime :: int
  p_cell_id :: "int option"
  p_mean :: "rat option"
  p_stddev :: "rat option"

record latest_row =
  prediction_latest_id :: int
  l_date :: "int option"
  l_leadtime :: "int option"
  l_mean :: "rat option"
  l_stddev :: "rat option"
  l_cell_id :: "int option"
  l_centroid_x :: "int option"
  l_centroid_y :: "int option"
  l_geom_6931 :: "geometry option"
  l_geom_4326 :: "geometry option"

type_synonym 'r table = "'r list \<times> int"

record database =
  cell :: "cell_row table option"
  prediction :: "prediction_row table option"
  prediction_latest :: "latest_row list option"

text \<open>\<^verbatim>\<open>CREATE TABLE IF NOT EXISTS\<close>: a new relation is empty, its sequence unused.\<close>

definition create_table_if_not_exists :: "'r table option \<Rightarrow> 'r table" where
  "create_table_if_not_exists t = (case t of None \<Rightarrow> ([], 0) | Some rows_seq \<Rightarrow> rows_seq)"

text \<open>
  Lines 136-143, on an existing table. The default of \<open>cell_id\<close> takes the next value
  of the sequence, whether or not the row is kept. \<^verbatim>\<open>ON CONFLICT DO NOTHING\<close>
  names no constraint, so the row is skipped when it breaks either the primary key or
  \<^verbatim>\<open>UNIQUE (centroid_x, centroid_y)\<close>; a row that is kept is added, and no
  existing row changes.
\<close>

definition cell_conflict :: "cell_row \<Rightarrow> cell_row list \<Rightarrow> bool" where
  "cell_conflict new rows =
     list_ex (\<lambda>r. cell_id r = cell_id new
                 \<or> (centroid_x r = centroid_x new \<and> centroid_y r = centroid_y new)) rows"

definition insert_cell :: "geometry_record \<Rightarrow> cell_row table \<Rightarrow> cell_row table" where
  "insert_cell record t =
     (case record of (centroid_x_m, centroid_y_m, wkt1, wkt2) \<Rightarrow>
        let nextval = snd t + 1;
            new = \<lparr>cell_id = nextval, centroid_x = centroid_x_m, centroid_y = centroid_y_m,
                   geom_6931 = ST_GeomFromText wkt1 6931,
                   geom_4326 = ST_Transform (ST_GeomFromText wkt2 6931) 4326\<rparr>
        in if cell_conflict new (fst t) then (fst t, nextval)
           else (fst t @ [new], nextval))"

text \<open>
  The statement as the cursor executes it. It fails when the relation is missing, and
  when a centroid does not fit its \<^verbatim>\<open>int4\<close> column: PostgreSQL then raises
  before any row or sequence value is touched.
\<close>

definition int4 :: "int \<Rightarrow> bool" where
  "int4 k = (- 2147483648 \<le> k \<and> k \<le> 2147483647)"

definition geometry_accepted :: "geometry_record \<Rightarrow> bool" where
  "geometry_accepted record = (int4 (fst record) \<and> int4 (fst (snd record)))"

definition insert_geometry :: "geometry_record \<Rightarrow> database \<Rightarrow> error + database" where
  "insert_geometry record d =
     (case cell d of
        None \<Rightarrow> Inl UndefinedTable
      | Some t \<Rightarrow>
          if geometry_accepted record then Inr (d\<lparr>cell := Some (insert_cell record t)\<rparr>)
          else Inl NumericValueOutOfRange)"

text \<open>
  Lines 217-237, on an existing table and for values that the columns take: the values
  are
  \<^verbatim>\<open>[record.time.date(), record.leadtime, record.cell_id, record.mean, record.stddev]\<close>.
  The row is skipped when it breaks the primary key or
  \<^verbatim>\<open>UNIQUE (date, leadtime, cell_id)\<close>; a null \<open>cell_id\<close> never breaks the
  latter.
\<close>

type_synonym prediction_values = "int \<times> int \<times> int option \<times> rat option \<times> rat option"

definition prediction_conflict :: "prediction_row \<Rightarrow> prediction_row list \<Rightarrow> bool" where
  "prediction_conflict new rows =
     list_ex (\<lambda>r. prediction_id r = prediction_id new
                 \<or> (p_date r = p_date new \<and> p_leadtime r = p_leadtime new
                    \<and> p_cell_id new \<noteq> None \<and> p_cell_id r = p_cell_id new)) rows"

definition insert_prediction_row ::
  "prediction_values \<Rightarrow> prediction_row table \<Rightarrow> prediction_row table" where
  "insert_prediction_row vals t =
     (case vals of (d, l, c, m, s) \<Rightarrow>
        let nextval = snd t + 1;
            new = \<lparr>prediction_id = nextval, p_date = d, p_leadtime = l, p_cell_id = c,
                   p_mean = m, p_stddev = s\<rparr>
        in if prediction_conflict new (fst t) then (fst t, nextval)
           else (fst t @ [new], nextval))"

subsection \<open>The processor, its log and its clock\<close>

datatype level = INFO | ERROR

datatype message =
    Attempting_to_load string
  | Loaded_NetCDF_data
  | Could_not_load string
  | Exception error
  | Ensuring_table_exists string
  | Ensured_table_exists string
  | Identifying_cell_geometries
  | Identified_cell_geometries nat
  | Loading_predictions
  | Loaded_predictions nat
  | Identifying_cell_IDs
  | Identified_cell_IDs nat
  | Ensuring_table_contains string nat
  | Ensured_table_contains string
  | Batch_preparing nat nat nat string
  | Batch_inserted nat nat nat string rat
  | Updating_view string
  | Updated_view string

text \<open>
  \<open>Batch_preparing idx n_batches len what\<close> and
  \<open>Batch_inserted idx n_batches len what remaining_time\<close> are the two messages of a
  chunk. The last argument is the value handed to \<^verbatim>\<open>human_readable\<close>, a
  formatting helper of \<^verbatim>\<open>utils\<close> that is not among the sources.

  The processor carries what the constructor sets (\<open>batch_size\<close>, \<open>xr\<close>) and the
  world it acts on: the database behind its connection, the records logged so far, and
  the monotonic clock, as the sequence of its future readings and the number of
  readings taken.
\<close>

record processor =
  batch_size :: nat
  xr :: "dataset option"
  db :: database
  logged :: "(level \<times> message) list"
  monotonic :: "nat \<Rightarrow> rat"
  clock_reads :: nat

definition logging_info :: "message \<Rightarrow> processor \<Rightarrow> processor" where
  "logging_info m p = p\<lparr>logged := logged p @ [(INFO, m)]\<rparr>"

definition logging_error :: "message \<Rightarrow> processor \<Rightarrow> processor" where
  "logging_error m p = p\<lparr>logged := logged p @ [(ERROR, m)]\<rparr>"

definition time_monotonic :: "processor \<Rightarrow> rat \<times> processor" where
  "time_monotonic p = (monotonic p (clock_reads p), p\<lparr>clock_reads := Suc (clock_reads p)\<rparr>)"

text \<open>\<^verbatim>\<open>int(math.ceil(length / batch_size))\<close>, for a batch size other than 0.\<close>

definition n_batches_of :: "nat \<Rightarrow> nat \<Rightarrow> nat" where
  "n_batches_of len bsize = nat \<lceil>(of_nat len :: rat) / of_nat bsize\<rceil>"

subsection \<open>\<^verbatim>\<open>load\<close> (lines 66-76)\<close>

definition load :: "input_stream \<Rightarrow> processor \<Rightarrow> processor outcome" where
  "load inputBlob p =
     (let p1 = logging_info (Attempting_to_load (name inputBlob)) p
      in case open_dataset inputBlob of
           Inr ds \<Rightarrow> Returned (logging_info Loaded_NetCDF_data (p1\<lparr>xr := Some ds\<rparr>))
         | Inl exc \<Rightarrow>
             if exc = ValueError
             then Returned (logging_error (Exception exc)
                             (logging_error (Could_not_load (name inputBlob)) p1))
             else Raised exc p1)"

subsection \<open>The chunked insert loop (lines 131-148 and 210-242)\<close>

text \<open>
  The statements of one chunk, in order, on the connection's view of the database. The
  first failure ends the chunk, with the exception and the view as the statements
  before it left it.
\<close>

fun execute_all :: "('r \<Rightarrow> database \<Rightarrow> error + database) \<Rightarrow> 'r list \<Rightarrow> database
                    \<Rightarrow> (error \<times> database) + database" where
  "execute_all execute [] d = Inr d"
| "execute_all execute (record # record_batch) d =
     (case execute record d of
        Inl e \<Rightarrow> Inl (e, d)
      | Inr d' \<Rightarrow> execute_all execute record_batch d')"

text \<open>
  A transaction that is not committed is lost: the tables keep the rows of the last
  commit. The values that its statements took from the sequences are not given back.
\<close>

definition keep_sequence :: "'r table option \<Rightarrow> 'r table option \<Rightarrow> 'r table option" where
  "keep_sequence committed view =
     (case (committed, view) of
        (Some c, Some v) \<Rightarrow> Some (fst c, snd v)
      | _ \<Rightarrow> committed)"

definition rollback :: "database \<Rightarrow> database \<Rightarrow> database" where
  "rollback committed view =
     committed\<lparr>cell := keep_sequence (cell committed) (cell view),
                prediction := keep_sequence (prediction committed) (prediction view)\<rparr>"

text \<open>
  Both upserters run the same loop, over the chunks numbered from \<open>idx\<close>: log, execute
  the chunk's statements, commit, read the clock, log the remaining time. \<open>execute\<close>
  is the insert statement and \<open>what\<close> the noun of the messages. The view of the
  database that the statements of a chunk leave becomes the database at the commit; an
  exception ends the loop and the run before the commit, and the chunk is lost.
\<close>

fun upsert_batches ::
  "('r \<Rightarrow> database \<Rightarrow> error + database) \<Rightarrow> string \<Rightarrow> nat \<Rightarrow> rat \<Rightarrow> nat \<Rightarrow> 'r list list
     \<Rightarrow> processor \<Rightarrow> processor outcome" where
  "upsert_batches execute what n_batches start_time idx [] p = Returned p"
| "upsert_batches execute what n_batches start_time idx (record_batch # rest) p =
     (let p1 = logging_info (Batch_preparing idx n_batches (length record_batch) what) p
      in case execute_all execute record_batch (db p1) of
           Inl failure \<Rightarrow> Raised (fst failure) (p1\<lparr>db := rollback (db p1) (snd failure)\<rparr>)
         | Inr d \<Rightarrow>
             (let p2 = p1\<lparr>db := d\<rparr>;
                  now = fst (time_monotonic p2);
                  p3 = snd (time_monotonic p2);
                  remaining_time =
                    (now - start_time) * (of_nat n_batches / of_nat idx - 1);
                  p4 = logging_info
                         (Batch_inserted idx n_batches (length record_batch) what
                            remaining_time) p3
              in upsert_batches execute what n_batches start_time (Suc idx) rest p4))"

subsection \<open>\<^verbatim>\<open>update_geometries\<close> (lines 78-149)\<close>

definition update_geometries :: "processor \<Rightarrow> processor outcome" where
  "update_geometries p =
     (let p1 = logging_info (Ensuring_table_exists ''cell'') p;
          p2 = p1\<lparr>db := (db p1)\<lparr>cell := Some (create_table_if_not_exists (cell (db p1)))\<rparr>\<rparr>;
          p3 = logging_info (Ensured_table_exists ''cell'') p2;
          p4 = logging_info Identifying_cell_geometries p3
      in case xr p4 of
           None \<Rightarrow> Raised AttributeError p4
         | Some ds \<Rightarrow>
             (case cell_geometries (xc_values ds) (yc_values ds) of
                Inl e \<Rightarrow> Raised e p4
              | Inr recs \<Rightarrow>
                  (let p5 = logging_info (Identified_cell_geometries (length recs)) p4;
                       p6 = logging_info (Ensuring_table_contains ''cell'' (length recs)) p5
                   in if batch_size p6 = 0 then Raised ZeroDivisionError p6
                      else
                        (let n_batches = n_batches_of (length recs) (batch_size p6);
                             start_time = fst (time_monotonic p6);
                             p7 = snd (time_monotonic p6)
                         in case upsert_batches insert_geometry ''geometries'' n_batches
                                   start_time 1 (batches recs (batch_size p7)) p7 of
                              Raised e q \<Rightarrow> Raised e q
                            | Returned q \<Rightarrow>
                                Returned (logging_info (Ensured_table_contains ''cell'') q)))))"

subsection \<open>\<^verbatim>\<open>update_predictions\<close> (lines 151-245)\<close>

text \<open>
  Line 179, \<^verbatim>\<open>self.xr.where(self.xr["mean"] > 0)\<close>: where the condition is false
  (the mean is not positive, or missing) every data variable becomes missing.
\<close>

definition mean_positive :: "entry \<Rightarrow> bool" where
  "mean_positive e = (case mean e of None \<Rightarrow> False | Some m \<Rightarrow> 0 < m)"

definition xr_where :: "entry \<Rightarrow> entry" where
  "xr_where e =
     (if mean_positive e then e
      else e\<lparr>mean := None, stddev := None, others := map (\<lambda>v. None) (others e)\<rparr>)"

text \<open>Line 179, \<^verbatim>\<open>dropna()\<close>: a row stays when none of its columns is missing.\<close>

definition notna :: "entry \<Rightarrow> bool" where
  "notna e = (mean e \<noteq> None \<and> stddev e \<noteq> None \<and> list_all (\<lambda>v. v \<noteq> None) (others e))"

definition dropna :: "entry list \<Rightarrow> entry list" where
  "dropna rows = filter notna rows"

text \<open>
  Lines 181-186, \<^verbatim>\<open>pd.to_numeric(column, downcast="integer")\<close> on a column of
  floats: pandas casts the column to integers (truncating) and keeps the cast only if
  it is \<^verbatim>\<open>numpy.allclose\<close> to the column, with \<^verbatim>\<open>rtol=0\<close> and the default
  \<^verbatim>\<open>atol\<close>; otherwise the column stays as it is. An integer column is written
  with its values among the rationals, as the merge compares the two by value.
\<close>

definition atol :: rat where
  "atol = 1 / 10 ^ 8"

definition allclose :: "int list \<Rightarrow> rat list \<Rightarrow> bool" where
  "allclose new_result result =
     list_all (\<lambda>(a, b). \<bar>of_int a - b\<bar> \<le> atol) (zip new_result result)"

definition to_numeric_downcast_integer :: "rat list \<Rightarrow> rat list" where
  "to_numeric_downcast_integer column =
     (let new_result = map py_int column
      in if allclose new_result column then map of_int new_result else column)"

text \<open>Lines 178-186: \<open>df_predictions\<close>, each row with its two new columns.\<close>

record prediction_record =
  row :: entry
  xc_m :: rat
  yc_m :: rat

definition df_predictions :: "dataset \<Rightarrow> prediction_record list" where
  "df_predictions ds =
     (let rows = dropna (map xr_where (to_dataframe ds));
          xs = to_numeric_downcast_integer (map (\<lambda>e. 1000 * xc e) rows);
          ys = to_numeric_downcast_integer (map (\<lambda>e. 1000 * yc e) rows)
      in map (\<lambda>(e, x, y). \<lparr>row = e, xc_m = x, yc_m = y\<rparr>) (zip rows (zip xs ys)))"

text \<open>
  Lines 191-194: \<open>df_cells\<close>, the three columns selected from all rows of the
  geometry table.
\<close>

type_synonym cell_key = "int \<times> int \<times> int"

definition df_cells :: "cell_row list \<Rightarrow> cell_key list" where
  "df_cells rows = map (\<lambda>r. (cell_id r, centroid_x r, centroid_y r)) rows"

text \<open>
  Lines 195-201, \<^verbatim>\<open>pd.merge(..., how="left")\<close> on
  \<open>(xc_m, yc_m) = (centroid_x, centroid_y)\<close>: every left row in order, once for each
  right row with the same key, or once with the right columns missing.
\<close>

definition key_matches :: "prediction_record \<Rightarrow> cell_key \<Rightarrow> bool" where
  "key_matches l r = (xc_m l = of_int (fst (snd r)) \<and> yc_m l = of_int (snd (snd r)))"

definition pd_merge ::
  "prediction_record list \<Rightarrow> cell_key list \<Rightarrow> (prediction_record \<times> cell_key option) list" where
  "pd_merge left right =
     concat (map (\<lambda>l. case filter (key_matches l) right of
                         [] \<Rightarrow> [(l, None)]
                       | ms \<Rightarrow> map (\<lambda>m. (l, Some m)) ms) left)"

text \<open>
  Lines 230-236: the values of one insert. \<^verbatim>\<open>record.time.date()\<close> is the day of
  the timestamp. \<^verbatim>\<open>record.cell_id\<close> is the cell id of the matching cell; for a
  record without a match the merge has left NaN there, which is \<open>None\<close> here. These
  are the values as Python hands them over; a statement with a NaN \<open>cell_id\<close> is
  refused (\<open>insert_prediction\<close> below) and writes nothing.
\<close>

definition date_of :: "int \<Rightarrow> int" where
  "date_of timestamp = timestamp div 86400"

definition insert_values :: "prediction_record \<times> cell_key option \<Rightarrow> prediction_values" where
  "insert_values record =
     (date_of (time (row (fst record))), leadtime (row (fst record)),
      map_option fst (snd record), mean (row (fst record)), stddev (row (fst record)))"

text \<open>
  Lines 216-237, the statement as the cursor executes it for one record of the merged
  frame. It fails when the relation is missing, and when a value does not fit its
  \<^verbatim>\<open>int4\<close> column: a \<open>cell_id\<close> that is NaN (the record found no cell), or a
  lead time out of range; and when a mean or a stddev does not fit its
  \<^verbatim>\<open>float4\<close> column: a number that would round to infinity, or to zero when it
  is not zero. PostgreSQL then raises before any row or sequence value is touched.
\<close>

definition float4 :: "rat option \<Rightarrow> bool" where
  "float4 v =
     (case v of
        None \<Rightarrow> True
      | Some q \<Rightarrow> q = 0 \<or> (1 / 2 ^ 150 < \<bar>q\<bar> \<and> \<bar>q\<bar> < 2 ^ 128 - 2 ^ 103))"

definition prediction_accepted :: "prediction_record \<times> cell_key option \<Rightarrow> bool" where
  "prediction_accepted record =
     (snd record \<noteq> None \<and> int4 (leadtime (row (fst record)))
      \<and> float4 (mean (row (fst record))) \<and> float4 (stddev (row (fst record))))"

definition insert_prediction ::
  "prediction_record \<times> cell_key option \<Rightarrow> database \<Rightarrow> error + database" where
  "insert_prediction record d =
     (case prediction d of
        None \<Rightarrow> Inl UndefinedTable
      | Some t \<Rightarrow>
          if prediction_accepted record
          then Inr (d\<lparr>prediction := Some (insert_prediction_row (insert_values record) t)\<rparr>)
          else Inl NumericValueOutOfRange)"

text \<open>
  The method. Creating the table needs the relation its foreign key refers to;
  reading the cells needs it as well.
\<close>

definition update_predictions :: "processor \<Rightarrow> processor outcome" where
  "update_predictions p =
     (let p1 = logging_info (Ensuring_table_exists ''prediction'') p
      in if prediction (db p1) = None \<and> cell (db p1) = None then Raised UndefinedTable p1
         else
           (let p2 = p1\<lparr>db := (db p1)\<lparr>prediction :=
                        Some (create_table_if_not_exists (prediction (db p1)))\<rparr>\<rparr>;
                p3 = logging_info (Ensured_table_exists ''prediction'') p2;
                p4 = logging_info Loading_predictions p3
            in case xr p4 of
                 None \<Rightarrow> Raised AttributeError p4
               | Some ds \<Rightarrow>
                   (let df = df_predictions ds;
                        p5 = logging_info (Loaded_predictions (length df)) p4;
                        p6 = logging_info Identifying_cell_IDs p5
                    in case cell (db p6) of
                         None \<Rightarrow> Raised UndefinedTable p6
                       | Some geom \<Rightarrow>
                           (let df_merged = pd_merge df (df_cells (fst geom));
                                p7 = logging_info (Identified_cell_IDs (length df_merged)) p6;
                                p8 = logging_info
                                       (Ensuring_table_contains ''prediction''
                                          (length df_merged)) p7
                            in if batch_size p8 = 0 then Raised ZeroDivisionError p8
                               else
                                 (let n_batches =
                                        n_batches_of (length df_merged) (batch_size p8);
                                      start_time = fst (time_monotonic p8);
                                      p9 = snd (time_monotonic p8)
                                  in case upsert_batches insert_prediction ''predictions''
                                            n_batches start_time 1
                                            (batches df_merged (batch_size p9)) p9 of
                                       Raised e q \<Rightarrow> Raised e q
                                     | Returned q \<Rightarrow>
                                         Returned (logging_info
                                           (Ensured_table_contains ''prediction'') q))))))"

subsection \<open>\<^verbatim>\<open>update_latest_prediction\<close> (lines 247-273)\<close>

text \<open>
  The query of lines 255-269, clause by clause. The full outer join pairs every
  prediction with the cells of its \<open>cell_id\<close>, keeps a prediction without such a cell
  and a cell without predictions with nulls on the other side.
\<close>

definition full_outer_join ::
  "prediction_row list \<Rightarrow> cell_row list \<Rightarrow> (prediction_row option \<times> cell_row option) list" where
  "full_outer_join predictions cells =
     concat (map (\<lambda>p. case filter (\<lambda>c. p_cell_id p = Some (cell_id c)) cells of
                         [] \<Rightarrow> [(Some p, None)]
                       | cs \<Rightarrow> map (\<lambda>c. (Some p, Some c)) cs) predictions)
     @ map (\<lambda>c. (None, Some c))
         (filter (\<lambda>c. \<not> list_ex (\<lambda>p. p_cell_id p = Some (cell_id c)) predictions) cells)"

text \<open>\<^verbatim>\<open>SELECT max(date) FROM prediction\<close>: null on an empty table.\<close>

definition max_date :: "prediction_row list \<Rightarrow> int option" where
  "max_date predictions =
     (if predictions = [] then None else Some (Max (set (map p_date predictions))))"

text \<open>\<^verbatim>\<open>WHERE date = (...)\<close>: true only when neither side is null.\<close>

definition where_date ::
  "int option \<Rightarrow> prediction_row option \<times> cell_row option \<Rightarrow> bool" where
  "where_date latest joined =
     (case (map_option p_date (fst joined), latest) of
        (Some d, Some m) \<Rightarrow> d = m
      | _ \<Rightarrow> False)"

text \<open>The selected columns of a joined row, under a given row number.\<close>

definition select_columns ::
  "int \<Rightarrow> prediction_row option \<times> cell_row option \<Rightarrow> latest_row" where
  "select_columns n joined =
     \<lparr>prediction_latest_id = n,
      l_date = map_option p_date (fst joined),
      l_leadtime = map_option p_leadtime (fst joined),
      l_mean = Option.bind (fst joined) p_mean,
      l_stddev = Option.bind (fst joined) p_stddev,
      l_cell_id = map_option cell_id (snd joined),
      l_centroid_x = map_option centroid_x (snd joined),
      l_centroid_y = map_option centroid_y (snd joined),
      l_geom_6931 = map_option geom_6931 (snd joined),
      l_geom_4326 = map_option geom_4326 (snd joined)\<rparr>"

text \<open>
  \<^verbatim>\<open>GROUP BY\<close> lists every selected column, so it leaves one row of each
  combination of values; \<^verbatim>\<open>row_number()\<close> then numbers the rows from 1.
\<close>

definition group_by :: "(prediction_row option \<times> cell_row option) list \<Rightarrow> latest_row list" where
  "group_by joined = remdups (map (select_columns 0) joined)"

definition row_number :: "latest_row list \<Rightarrow> latest_row list" where
  "row_number rows =
     map (\<lambda>(n, r). r\<lparr>prediction_latest_id := int n + 1\<rparr>) (enumerate 0 rows)"

definition latest_select :: "prediction_row list \<Rightarrow> cell_row list \<Rightarrow> latest_row list" where
  "latest_select predictions cells =
     row_number (group_by (filter (where_date (max_date predictions))
                             (full_outer_join predictions cells)))"

text \<open>
  The method: one \<^verbatim>\<open>execute\<close> with the two statements, then the commit.
  \<^verbatim>\<open>DROP MATERIALIZED VIEW\<close> fails when the view does not exist, and
  \<^verbatim>\<open>CREATE MATERIALIZED VIEW\<close> when one of the two tables does not; nothing is
  committed then.
\<close>

definition update_latest_prediction :: "processor \<Rightarrow> processor outcome" where
  "update_latest_prediction p =
     (let p1 = logging_info (Updating_view ''prediction_latest'') p
      in case prediction_latest (db p1) of
           None \<Rightarrow> Raised UndefinedTable p1
         | Some dropped \<Rightarrow>
             (case (prediction (db p1), cell (db p1)) of
                (Some predictions, Some cells) \<Rightarrow>
                  Returned (logging_info (Updated_view ''prediction_latest'')
                    (p1\<lparr>db := (db p1)\<lparr>prediction_latest :=
                           Some (latest_select (fst predictions) (fst cells))\<rparr>\<rparr>))
              | _ \<Rightarrow> Raised UndefinedTable p1))"

text \<open>
  The constructor (lines 20-30), on a given database and clock: no dataset yet.
\<close>

definition Processor :: "nat \<Rightarrow> database \<Rightarrow> (nat \<Rightarrow> rat) \<Rightarrow> processor" where
  "Processor size_of_batch d clock =
     \<lparr>batch_size = size_of_batch, xr = None, db = d, logged = [],
      monotonic = clock, clock_reads = 0\<rparr>"

subsection \<open>Invocations\<close>

text \<open>
  The four methods as calls, and a sequence of calls on one processor: each call acts
  on the state the one before it left, whether that one returned or raised. (A call
  after one that raised is that of a later invocation, on a connection of its own.)
\<close>

datatype call =
    Load input_stream
  | Update_geometries
  | Update_predictions
  | Update_latest_prediction

fun invoke :: "call \<Rightarrow> processor \<Rightarrow> processor outcome" where
  "invoke (Load inputBlob) p = load inputBlob p"
| "invoke Update_geometries p = update_geometries p"
| "invoke Update_predictions p = update_predictions p"
| "invoke Update_latest_prediction p = update_latest_prediction p"

definition invoke_all :: "call list \<Rightarrow> processor \<Rightarrow> processor" where
  "invoke_all calls p = fold (\<lambda>c q. state_of (invoke c q)) calls p"

subsection \<open>Reading the state\<close>

text \<open>A database without relations, as a new server has it.\<close>

definition fresh_database :: database where
  "fresh_database = \<lparr>cell = None, prediction = None, prediction_latest = None\<rparr>"

text \<open>The rows of the two tables (none while the relation does not exist).\<close>

definition cell_rows :: "database \<Rightarrow> cell_row list" where
  "cell_rows d = (case cell d of None \<Rightarrow> [] | Some t \<Rightarrow> fst t)"

definition prediction_rows :: "database \<Rightarrow> prediction_row list" where
  "prediction_rows d = (case prediction d of None \<Rightarrow> [] | Some t \<Rightarrow> fst t)"


text \<open>
  The \<open>cell_id\<close> of every row came from the sequence: none is beyond its last value.
  This holds for a new table and is kept by every insert of the processor.
\<close>

definition cell_ids_from_sequence :: "cell_row table \<Rightarrow> bool" where
  "cell_ids_from_sequence t = list_all (\<lambda>r. cell_id r \<le> snd t) (fst t)"

definition serial_ahead :: "database \<Rightarrow> bool" where
  "serial_ahead d = (case cell d of None \<Rightarrow> True | Some t \<Rightarrow> cell_ids_from_sequence t)"

text \<open>The values of a row of the predictions table, as an insert gives them.\<close>

definition values_of :: "prediction_row \<Rightarrow> prediction_values" where
  "values_of r = (p_date r, p_leadtime r, p_cell_id r, p_mean r, p_stddev r)"

definition positive_mean :: "prediction_row \<Rightarrow> bool" where
  "positive_mean r = (case p_mean r of None \<Rightarrow> False | Some m \<Rightarrow> 0 < m)"

text \<open>
  The two uniqueness constraints of the schema, on the rows of a table: the primary key
  of \<open>cell\<close>, and \<^verbatim>\<open>UNIQUE (date, leadtime, cell_id)\<close> of \<open>prediction\<close>, which
  binds the rows whose \<open>cell_id\<close> is not null.
\<close>

definition cell_pkey :: "cell_row list \<Rightarrow> bool" where
  "cell_pkey cells = distinct (map cell_id cells)"

definition prediction_unique :: "prediction_row list \<Rightarrow> bool" where
  "prediction_unique predictions =
     distinct (map (\<lambda>p. (p_date p, p_leadtime p, p_cell_id p))
                 (filter (\<lambda>p. p_cell_id p \<noteq> None) predictions))"

text \<open>The rows of the latest view for a cell, and for a cell at a lead time.\<close>

definition rows_of_cell :: "int \<Rightarrow> latest_row list \<Rightarrow> latest_row list" where
  "rows_of_cell c view = filter (\<lambda>v. l_cell_id v = Some c) view"

definition rows_of_cell_at :: "int \<Rightarrow> int \<Rightarrow> latest_row list \<Rightarrow> latest_row list" where
  "rows_of_cell_at c l view =
     filter (\<lambda>v. l_cell_id v = Some c \<and> l_leadtime v = Some l) view"

subsection \<open>An example run\<close>

text \<open>
  The grid of the spec's example, axes \<open>[0, 10]\<close> km by \<open>[0, 10]\<close> km, with one
  time and one lead time. Of the four entries the second has a mean of 0 and the third
  has no stddev. The example processor has loaded this dataset and faces a new
  database; the populated one has the four cells already.
\<close>

definition example_entries :: "entry list" where
  "example_entries =
     [\<lparr>time = 1700000000, leadtime = 1, xc = 0, yc = 0,
       mean = Some (1 / 2), stddev = Some (1 / 10), others = []\<rparr>,
      \<lparr>time = 1700000000, leadtime = 1, xc = 0, yc = 10,
       mean = Some 0, stddev = Some (1 / 10), others = []\<rparr>,
      \<lparr>time = 1700000000, leadtime = 1, xc = 10, yc = 0,
       mean = Some (1 / 4), stddev = None, others = []\<rparr>,
      \<lparr>time = 1700000000, leadtime = 1, xc = 10, yc = 10,
       mean = Some (3 / 4), stddev = Some (1 / 5), others = []\<rparr>]"

definition example_dataset :: dataset where
  "example_dataset =
     \<lparr>xc_values = [0, 10], yc_values = [0, 10], to_dataframe = example_entries\<rparr>"

definition example_processor :: processor where
  "example_processor =
     (Processor 3 fresh_database (\<lambda>n. of_nat n))\<lparr>xr := Some example_dataset\<rparr>"

definition example_cells :: "cell_row table" where
  "example_cells = fold insert_cell (records 5000 5000 [0, 10] [0, 10]) ([], 0)"

definition populated_processor :: processor where
  "populated_processor =
     example_processor\<lparr>db := fresh_database\<lparr>cell := Some example_cells\<rparr>\<rparr>"

text \<open>
  Predictions of one day for the first cell of the example, at two lead times, and the
  same processor with the three relations in place.
\<close>

definition example_predictions :: "prediction_row table" where
  "example_predictions =
     ([\<lparr>prediction_id = 1, p_date = 19675, p_leadtime = 1, p_cell_id = Some 1,
        p_mean = Some (1 / 2), p_stddev = Some (1 / 10)\<rparr>,
       \<lparr>prediction_id = 2, p_date = 19675, p_leadtime = 2, p_cell_id = Some 1,
        p_mean = Some (1 / 3), p_stddev = Some (1 / 10)\<rparr>], 2)"

definition refreshing_processor :: processor where
  "refreshing_processor =
     example_processor\<lparr>db := \<lparr>cell = Some example_cells,
                                prediction = Some example_predictions,
                                prediction_latest = Some []\<rparr>\<rparr>"

text \<open>
  A grid whose first x centroid is \<open>1/2048\<close> km, a little under half a metre, with a
  positive mean and a stddev at each of its four places, loaded by a new processor on a
  new database.
\<close>

definition submetre_entries :: "entry list" where
  "submetre_entries =
     [\<lparr>time = 1700000000, leadtime = 1, xc = 1 / 2048, yc = 0,
       mean = Some (1 / 2), stddev = Some (1 / 10), others = []\<rparr>,
      \<lparr>time = 1700000000, leadtime = 1, xc = 1 / 2048, yc = 10,
       mean = Some (1 / 2), stddev = Some (1 / 10), others = []\<rparr>,
      \<lparr>time = 1700000000, leadtime = 1, xc = 10, yc = 0,
       mean = Some (1 / 4), stddev = Some (1 / 10), others = []\<rparr>,
      \<lparr>time = 1700000000, leadtime = 1, xc = 10, yc = 10,
       mean = Some (3 / 4), stddev = Some (1 / 5), others = []\<rparr>]"

definition submetre_dataset :: dataset where
  "submetre_dataset =
     \<lparr>xc_values = [1 / 2048, 10], yc_values = [0, 10], to_dataframe = submetre_entries\<rparr>"

definition submetre_processor :: processor where
  "submetre_processor =
     (Processor 3 fresh_database (\<lambda>n. of_nat n))\<lparr>xr := Some submetre_dataset\<rparr>"


section \<open>Properties\<close>

subsection \<open>Truncation and chunking\<close>

lemma py_int_of_int: "py_int (of_int k) = k"
  by (simp add: py_int_def)

subsection \<open>The Grid Geometry Deriver\<close>

lemma length_records:
  "length (records dx dy xs ys) = length xs * length ys"
  by (induction xs) (simp_all add: records_def)

lemma centroid_pair_geometry_record:
  "centroid_pair (geometry_record dx dy x y) = (centroid_m x, centroid_m y)"
  by (simp add: centroid_pair_def geometry_record_def Let_def)

lemma centroid_pairs_records:
  "map centroid_pair (records dx dy xs ys)
     = List.product (map centroid_m xs) (map centroid_m ys)"
  by (induction xs) (simp_all add: records_def centroid_pair_geometry_record comp_def)

lemma distinct_product_iff:
  assumes "as \<noteq> []" "bs \<noteq> []"
  shows "distinct (List.product as bs) \<longleftrightarrow> distinct as \<and> distinct bs"
proof
  assume d: "distinct (List.product as bs)"
  have "distinct as" using d assms(2)
  proof (induction as)
    case Nil
    then show ?case by simp
  next
    case (Cons a as)
    obtain b bs' where bs: "bs = b # bs'" using Cons.prems(2) by (cases bs) auto
    have "a \<notin> set as"
    proof
      assume "a \<in> set as"
      then have "(a, b) \<in> set (List.product as bs)" by (simp add: bs)
      moreover have "(a, b) \<in> set (map (Pair a) bs)" by (simp add: bs)
      ultimately show False using Cons.prems(1) by auto
    qed
    moreover have "distinct as" using Cons by simp
    ultimately show ?case by simp
  qed
  moreover have "distinct bs"
  proof -
    obtain a as' where as: "as = a # as'" using assms(1) by (cases as) auto
    from d have "distinct (map (Pair a) bs)" by (simp add: as)
    then show ?thesis by (simp add: distinct_map)
  qed
  ultimately show "distinct as \<and> distinct bs" by simp
next
  assume "distinct as \<and> distinct bs"
  then show "distinct (List.product as bs)" by (simp add: distinct_product)
qed

text \<open>
  Claim C2, as far as it holds. For two axes of length at least 2 the Deriver returns
  exactly \<open>length xs * length ys\<close> records. Their centroid pairs are pairwise distinct
  exactly when the truncated metre values of the x axis are pairwise distinct and those
  of the y axis are: nothing in the Deriver removes a pair that occurs twice.
\<close>

theorem deriver_count_and_distinct:
  assumes "2 \<le> length xs" and "2 \<le> length ys"
  shows "\<exists>recs. cell_geometries xs ys = Inr recs
           \<and> length recs = length xs * length ys
           \<and> (distinct (map centroid_pair recs)
                \<longleftrightarrow> distinct (map centroid_m xs) \<and> distinct (map centroid_m ys))"
proof -
  from assms have ne: "map centroid_m xs \<noteq> []" "map centroid_m ys \<noteq> []" by auto
  from assms obtain sx sy where
    s: "mean_step_size xs = Inr sx" "mean_step_size ys = Inr sy"
    by (simp add: mean_step_size_def)
  then have "cell_geometries xs ys = Inr (records (delta_m sx) (delta_m sy) xs ys)"
    by (simp add: cell_geometries_def)
  then show ?thesis
    using distinct_product_iff [OF ne]
    by (simp add: length_records centroid_pairs_records)
qed

theorem deriver_count_and_distinct_witness:
  "2 \<le> length [0, 10 :: rat]
   \<and> (\<exists>recs. cell_geometries [0, 10] [0, 10] = Inr recs
          \<and> length recs = length [0, 10 :: rat] * length [0, 10 :: rat]
          \<and> distinct (map centroid_pair recs))"
  using deriver_count_and_distinct [of "[0, 10]" "[0, 10]"]
  by (simp add: centroid_m_def py_int_def)

text \<open>
  Claim C2 as stated fails: an x axis with the two values 0 km and 0.0005 km (half a
  metre apart) has length 2, and both values truncate to 0 m, so each centroid pair
  occurs twice among the four records.
\<close>

theorem deriver_duplicate_centroids:
  "2 \<le> length [0, 1 / 2000 :: rat] \<and> 2 \<le> length [0, 10 :: rat]
   \<and> cell_geometries [0, 1 / 2000] [0, 10] = Inr (records 0 5000 [0, 1 / 2000] [0, 10])
   \<and> map centroid_pair (records 0 5000 [0, 1 / 2000] [0, 10])
       = [(0, 0), (0, 10000), (0, 0), (0, 10000)]
   \<and> \<not> distinct (map centroid_pair (records 0 5000 [0, 1 / 2000] [0, 10]))"
  by code_simp

text \<open>
  Claim C3 at the axis \<open>[0, 25]\<close> (kilometres). The mean step is 25 km. The claim's
  half-width is \<open>trunc (0.5 * 1000 * 25) = 12500\<close> metres; lines 102-103 truncate the
  half step while it is still in kilometres and multiply afterwards, which gives
  \<open>1000 * trunc 12.5 = 12000\<close> metres.
\<close>

theorem half_width_truncated_in_km:
  "mean_step_size [0, 25] = Inr 25
   \<and> delta_m 25 = 12000
   \<and> py_int ((1 / 2) * (1000 * 25)) = 12500"
  by code_simp

subsection \<open>Chunks\<close>

declare batches.simps [simp del]

lemma batches_Nil: "batches [] n = []"
  by (simp add: batches.simps)

lemma batches_step:
  "0 < n \<Longrightarrow> xs \<noteq> [] \<Longrightarrow> batches xs n = take n xs # batches (drop n xs) n"
  by (subst batches.simps) simp

lemma concat_batches: "0 < n \<Longrightarrow> concat (batches xs n) = xs"
proof (induction xs n rule: batches.induct)
  case (1 iterable n)
  show ?case
  proof (cases "iterable = []")
    case True
    then show ?thesis by (simp add: batches_Nil)
  next
    case False
    with 1 show ?thesis by (simp add: batches_step)
  qed
qed

lemma n_batches_of_div:
  "n_batches_of len n = nat (- ((- int len) div int n))"
proof -
  have "(of_nat len :: rat) / of_nat n = - (of_int (- int len) / of_int (int n))"
    by simp
  then have "\<lceil>(of_nat len :: rat) / of_nat n\<rceil> = - \<lfloor>(of_int (- int len) :: rat) / of_int (int n)\<rfloor>"
    by (simp only: ceiling_minus)
  then show ?thesis
    by (simp only: n_batches_of_def floor_divide_of_int_eq)
qed




lemma list_all_batches:
  "0 < n \<Longrightarrow> list_all (list_all P) (batches xs n) = list_all P xs"
proof -
  assume "0 < n"
  then have "list_all P xs = list_all P (concat (batches xs n))"
    by (simp add: concat_batches)
  then show ?thesis by (simp add: list_all_iff)
qed

lemma set_concat_takeWhile: "set (concat (takeWhile P xss)) \<subseteq> set (concat xss)"
  by (auto dest: set_takeWhileD)

subsection \<open>The insert loop\<close>

lemma logging_info_simps:
  "batch_size (logging_info m p) = batch_size p"
  "xr (logging_info m p) = xr p"
  "db (logging_info m p) = db p"
  "monotonic (logging_info m p) = monotonic p"
  "clock_reads (logging_info m p) = clock_reads p"
  "logged (logging_info m p) = logged p @ [(INFO, m)]"
  by (simp_all add: logging_info_def)

lemma logging_error_simps:
  "batch_size (logging_error m p) = batch_size p"
  "xr (logging_error m p) = xr p"
  "db (logging_error m p) = db p"
  "monotonic (logging_error m p) = monotonic p"
  "clock_reads (logging_error m p) = clock_reads p"
  "logged (logging_error m p) = logged p @ [(ERROR, m)]"
  by (simp_all add: logging_error_def)

lemma time_monotonic_simps:
  "fst (time_monotonic p) = monotonic p (clock_reads p)"
  "batch_size (snd (time_monotonic p)) = batch_size p"
  "xr (snd (time_monotonic p)) = xr p"
  "db (snd (time_monotonic p)) = db p"
  "monotonic (snd (time_monotonic p)) = monotonic p"
  "clock_reads (snd (time_monotonic p)) = Suc (clock_reads p)"
  "logged (snd (time_monotonic p)) = logged p"
  by (simp_all add: time_monotonic_def)

lemmas state_simps = logging_info_simps logging_error_simps time_monotonic_simps

text \<open>What the loop leaves alone, whatever the statement does.\<close>

lemma upsert_batches_frame:
  "batch_size (state_of (upsert_batches ex what n st idx bs p)) = batch_size p
   \<and> xr (state_of (upsert_batches ex what n st idx bs p)) = xr p
   \<and> monotonic (state_of (upsert_batches ex what n st idx bs p)) = monotonic p"
proof (induction bs arbitrary: idx p)
  case Nil
  show ?case by simp
next
  case (Cons b bs)
  show ?case
  proof (cases "execute_all ex b (db (logging_info (Batch_preparing idx n (length b) what) p))")
    case (Inl failure)
    then show ?thesis by (simp add: state_simps)
  next
    case (Inr d)
    then show ?thesis by (simp add: Let_def Cons.IH state_simps)
  qed
qed

lemma upsert_batches_logged_prefix:
  "\<exists>new. logged (state_of (upsert_batches ex what n st idx bs p)) = logged p @ new"
proof (induction bs arbitrary: idx p)
  case Nil
  show ?case by simp
next
  case (Cons b bs)
  show ?case
  proof (cases "execute_all ex b (db (logging_info (Batch_preparing idx n (length b) what) p))")
    case (Inl failure)
    then show ?thesis by (simp add: state_simps)
  next
    case (Inr d)
    let ?p4 = "logging_info
                 (Batch_inserted idx n (length b) what
                    ((monotonic p (clock_reads p) - st) * (of_nat n / of_nat idx - 1)))
                 (snd (time_monotonic
                    ((logging_info (Batch_preparing idx n (length b) what) p)\<lparr>db := d\<rparr>)))"
    obtain new where
      "logged (state_of (upsert_batches ex what n st (Suc idx) bs ?p4)) = logged ?p4 @ new"
      using Cons.IH by blast
    with Inr show ?thesis by (simp add: Let_def state_simps)
  qed
qed

text \<open>
  The clock is read once for each chunk that is committed, so the readings taken count
  the completed chunks. The report of the completed chunk \<open>idx + k\<close> is in the log,
  whether the loop ran to its end or was cut short by a later chunk.
\<close>

lemma upsert_batches_report:
  assumes "k < clock_reads (state_of (upsert_batches ex what n st idx bs p)) - clock_reads p"
  shows "(INFO, Batch_inserted (idx + k) n (length (bs ! k)) what
            ((monotonic p (clock_reads p + k) - st)
               * (of_nat n / of_nat (idx + k) - 1)))
         \<in> set (logged (state_of (upsert_batches ex what n st idx bs p)))"
  using assms
proof (induction bs arbitrary: idx p k)
  case Nil
  then show ?case by simp
next
  case (Cons b bs)
  let ?p1 = "logging_info (Batch_preparing idx n (length b) what) p"
  show ?case
  proof (cases "execute_all ex b (db ?p1)")
    case (Inl failure)
    with Cons.prems show ?thesis by (simp add: state_simps)
  next
    case (Inr d)
    let ?m = "Batch_inserted idx n (length b) what
                ((monotonic p (clock_reads p) - st) * (of_nat n / of_nat idx - 1))"
    let ?p4 = "logging_info ?m (snd (time_monotonic (?p1\<lparr>db := d\<rparr>)))"
    have run: "upsert_batches ex what n st idx (b # bs) p
                 = upsert_batches ex what n st (Suc idx) bs ?p4"
      using Inr by (simp add: Let_def state_simps)
    show ?thesis
    proof (cases k)
      case 0
      obtain new where "logged (state_of (upsert_batches ex what n st (Suc idx) bs ?p4))
                          = logged ?p4 @ new"
        using upsert_batches_logged_prefix by blast
      then show ?thesis using 0 unfolding run by (simp add: state_simps)
    next
      case (Suc j)
      with Cons.prems
      have "j < clock_reads (state_of (upsert_batches ex what n st (Suc idx) bs ?p4))
                - clock_reads ?p4"
        unfolding run by (simp add: state_simps)
      from Cons.IH [OF this] show ?thesis
        using Suc unfolding run by (simp add: state_simps)
    qed
  qed
qed

subsection \<open>The geometry table\<close>

lemma insert_cell_sequence: "snd (insert_cell r t) = snd t + 1"
  by (cases r) (simp add: insert_cell_def Let_def)

lemma insert_cell_appends: "\<exists>new. fst (insert_cell r t) = fst t @ new"
  by (cases r) (simp add: insert_cell_def Let_def)

lemma insert_cell_keeps_ids:
  "cell_ids_from_sequence t \<Longrightarrow> cell_ids_from_sequence (insert_cell r t)"
  by (cases r)
     (auto simp: insert_cell_def Let_def cell_ids_from_sequence_def list_all_iff)

lemma insert_cell_present:
  assumes "cell_ids_from_sequence t"
  shows "centroid_pair r \<in> set (map (\<lambda>c. (centroid_x c, centroid_y c)) (fst (insert_cell r t)))"
proof -
  obtain cx cy w1 w2 where r: "r = (cx, cy, w1, w2)" by (cases r)
  have "\<not> list_ex (\<lambda>c. cell_id c = snd t + 1) (fst t)"
    using assms by (auto simp: cell_ids_from_sequence_def list_all_iff list_ex_iff)
  then show ?thesis
    by (auto simp: r insert_cell_def Let_def cell_conflict_def centroid_pair_def
                   list_ex_iff image_iff)
qed

lemma insert_cell_skips:
  "centroid_pair r \<in> set (map (\<lambda>c. (centroid_x c, centroid_y c)) (fst t))
   \<Longrightarrow> fst (insert_cell r t) = fst t"
  by (cases r)
     (auto simp: insert_cell_def Let_def cell_conflict_def centroid_pair_def list_ex_iff)

lemma fold_insert_cell_appends: "\<exists>new. fst (fold insert_cell rs t) = fst t @ new"
proof (induction rs arbitrary: t)
  case Nil
  show ?case by simp
next
  case (Cons r rs)
  obtain n1 where "fst (insert_cell r t) = fst t @ n1"
    using insert_cell_appends by blast
  moreover obtain n2 where
    "fst (fold insert_cell rs (insert_cell r t)) = fst (insert_cell r t) @ n2"
    using Cons.IH by blast
  ultimately show ?case by simp
qed

lemma fold_insert_cell_keeps_ids:
  "cell_ids_from_sequence t \<Longrightarrow> cell_ids_from_sequence (fold insert_cell rs t)"
  by (induction rs arbitrary: t) (simp_all add: insert_cell_keeps_ids)

lemma fold_insert_cell_present:
  assumes "cell_ids_from_sequence t"
  shows "set (map centroid_pair rs)
           \<subseteq> set (map (\<lambda>c. (centroid_x c, centroid_y c)) (fst (fold insert_cell rs t)))"
  using assms
proof (induction rs arbitrary: t)
  case Nil
  show ?case by simp
next
  case (Cons r rs)
  let ?t = "insert_cell r t"
  have ok: "cell_ids_from_sequence ?t" using Cons.prems by (rule insert_cell_keeps_ids)
  obtain new where new: "fst (fold insert_cell rs ?t) = fst ?t @ new"
    using fold_insert_cell_appends by blast
  have "centroid_pair r \<in> set (map (\<lambda>c. (centroid_x c, centroid_y c)) (fst ?t))"
    using Cons.prems by (rule insert_cell_present)
  then have "centroid_pair r
               \<in> set (map (\<lambda>c. (centroid_x c, centroid_y c)) (fst (fold insert_cell rs ?t)))"
    by (simp add: new)
  with Cons.IH [OF ok] show ?case by simp
qed

lemma fold_insert_cell_skips:
  "set (map centroid_pair rs) \<subseteq> set (map (\<lambda>c. (centroid_x c, centroid_y c)) (fst t))
   \<Longrightarrow> fst (fold insert_cell rs t) = fst t"
proof (induction rs arbitrary: t)
  case Nil
  show ?case by simp
next
  case (Cons r rs)
  have same: "fst (insert_cell r t) = fst t"
    using Cons.prems by (intro insert_cell_skips) simp
  with Cons.prems
  have "set (map centroid_pair rs)
          \<subseteq> set (map (\<lambda>c. (centroid_x c, centroid_y c)) (fst (insert_cell r t)))"
    by simp
  from Cons.IH [OF this] same show ?case by simp
qed

lemma fold_insert_cell_twice:
  assumes "cell_ids_from_sequence t"
  shows "fst (fold insert_cell rs (fold insert_cell rs t)) = fst (fold insert_cell rs t)"
  using fold_insert_cell_present [OF assms] by (rule fold_insert_cell_skips)

lemma create_table_keeps_ids:
  "serial_ahead d \<Longrightarrow> cell_ids_from_sequence (create_table_if_not_exists (cell d))"
  by (cases "cell d")
     (simp_all add: serial_ahead_def create_table_if_not_exists_def cell_ids_from_sequence_def)

lemma fold_insert_cell_sequence: "snd (fold insert_cell rs t) = snd t + int (length rs)"
  by (induction rs arbitrary: t) (simp_all add: insert_cell_sequence)

lemma cell_ids_from_sequence_later:
  "cell_ids_from_sequence t \<Longrightarrow> snd t \<le> s \<Longrightarrow> cell_ids_from_sequence (fst t, s)"
  by (auto simp: cell_ids_from_sequence_def list_all_iff)

lemma keep_sequence_same: "keep_sequence t t = t"
  by (cases t) (simp_all add: keep_sequence_def)

lemma keep_sequence_Some: "keep_sequence (Some c) (Some v) = Some (fst c, snd v)"
  by (simp add: keep_sequence_def)

subsection \<open>The statements of the two upserters\<close>

lemma execute_all_insert_geometry:
  "cell d = Some t
   \<Longrightarrow> execute_all insert_geometry rs d
       = (if list_all geometry_accepted rs
          then Inr (d\<lparr>cell := Some (fold insert_cell rs t)\<rparr>)
          else Inl (NumericValueOutOfRange,
                    d\<lparr>cell := Some (fold insert_cell (takeWhile geometry_accepted rs) t)\<rparr>))"
  by (induction rs arbitrary: d t) (simp_all add: insert_geometry_def)

lemma execute_all_insert_prediction:
  "prediction d = Some t
   \<Longrightarrow> execute_all insert_prediction rs d
       = (if list_all prediction_accepted rs
          then Inr (d\<lparr>prediction :=
                       Some (fold insert_prediction_row (map insert_values rs) t)\<rparr>)
          else Inl (NumericValueOutOfRange,
                    d\<lparr>prediction :=
                       Some (fold insert_prediction_row
                               (map insert_values (takeWhile prediction_accepted rs)) t)\<rparr>))"
  by (induction rs arbitrary: d t) (simp_all add: insert_prediction_def)

text \<open>
  The geometry loop on an existing table: the chunks before the first one that holds a
  record the table refuses are committed, in order; the table has their rows, and a
  sequence that has moved on by the inserts tried.
\<close>

lemma upsert_batches_geometry:
  assumes "cell (db p) = Some t"
  shows "\<exists>extra.
           cell (db (state_of (upsert_batches insert_geometry what n st idx bs p)))
             = Some (fst (fold insert_cell
                            (concat (takeWhile (list_all geometry_accepted) bs)) t),
                     snd (fold insert_cell
                            (concat (takeWhile (list_all geometry_accepted) bs)) t)
                       + int extra)
           \<and> (list_all (list_all geometry_accepted) bs \<longrightarrow> extra = 0)
           \<and> prediction (db (state_of (upsert_batches insert_geometry what n st idx bs p)))
               = prediction (db p)
           \<and> prediction_latest
                (db (state_of (upsert_batches insert_geometry what n st idx bs p)))
               = prediction_latest (db p)
           \<and> exception_of (upsert_batches insert_geometry what n st idx bs p)
               = (if list_all (list_all geometry_accepted) bs then None
                  else Some NumericValueOutOfRange)
           \<and> clock_reads (state_of (upsert_batches insert_geometry what n st idx bs p))
               = clock_reads p + length (takeWhile (list_all geometry_accepted) bs)"
  using assms
proof (induction bs arbitrary: idx p t)
  case Nil
  then show ?case by (intro exI [of _ 0]) simp
next
  case (Cons b bs)
  let ?p1 = "logging_info (Batch_preparing idx n (length b) what) p"
  show ?case
  proof (cases "list_all geometry_accepted b")
    case True
    let ?t = "fold insert_cell b t"
    let ?p4 = "logging_info
                 (Batch_inserted idx n (length b) what
                    ((monotonic p (clock_reads p) - st) * (of_nat n / of_nat idx - 1)))
                 (snd (time_monotonic (?p1\<lparr>db := (db p)\<lparr>cell := Some ?t\<rparr>\<rparr>)))"
    from True Cons.prems
    have run: "upsert_batches insert_geometry what n st idx (b # bs) p
                 = upsert_batches insert_geometry what n st (Suc idx) bs ?p4"
      by (simp add: execute_all_insert_geometry Let_def state_simps)
    have c: "cell (db ?p4) = Some ?t" by (simp add: state_simps)
    from Cons.IH [OF c, of "Suc idx"] True show ?thesis
      unfolding run by (simp add: state_simps)
  next
    case False
    let ?v = "(db p)\<lparr>cell := Some (fold insert_cell (takeWhile geometry_accepted b) t)\<rparr>"
    from False Cons.prems
    have run: "upsert_batches insert_geometry what n st idx (b # bs) p
                 = Raised NumericValueOutOfRange (?p1\<lparr>db := rollback (db p) ?v\<rparr>)"
      by (simp add: execute_all_insert_geometry Let_def state_simps)
    show ?thesis
      unfolding run using False Cons.prems
      by (intro exI [of _ "length (takeWhile geometry_accepted b)"])
         (simp add: rollback_def keep_sequence_Some keep_sequence_same
                    fold_insert_cell_sequence state_simps)
  qed
qed

lemma insert_prediction_row_sequence: "snd (insert_prediction_row v t) = snd t + 1"
  by (cases v) (simp add: insert_prediction_row_def Let_def)

lemma fold_insert_prediction_row_sequence:
  "snd (fold insert_prediction_row vs t) = snd t + int (length vs)"
  by (induction vs arbitrary: t) (simp_all add: insert_prediction_row_sequence)

text \<open>The predictions loop on an existing table, likewise.\<close>

lemma upsert_batches_prediction:
  assumes "prediction (db p) = Some t"
  shows "\<exists>extra.
           prediction (db (state_of (upsert_batches insert_prediction what n st idx bs p)))
             = Some (fst (fold insert_prediction_row
                            (map insert_values
                               (concat (takeWhile (list_all prediction_accepted) bs))) t),
                     snd (fold insert_prediction_row
                            (map insert_values
                               (concat (takeWhile (list_all prediction_accepted) bs))) t)
                       + int extra)
           \<and> (list_all (list_all prediction_accepted) bs \<longrightarrow> extra = 0)
           \<and> cell (db (state_of (upsert_batches insert_prediction what n st idx bs p)))
               = cell (db p)
           \<and> prediction_latest
                (db (state_of (upsert_batches insert_prediction what n st idx bs p)))
               = prediction_latest (db p)
           \<and> exception_of (upsert_batches insert_prediction what n st idx bs p)
               = (if list_all (list_all prediction_accepted) bs then None
                  else Some NumericValueOutOfRange)
           \<and> clock_reads (state_of (upsert_batches insert_prediction what n st idx bs p))
               = clock_reads p + length (takeWhile (list_all prediction_accepted) bs)"
  using assms
proof (induction bs arbitrary: idx p t)
  case Nil
  then show ?case by (intro exI [of _ 0]) simp
next
  case (Cons b bs)
  let ?p1 = "logging_info (Batch_preparing idx n (length b) what) p"
  show ?case
  proof (cases "list_all prediction_accepted b")
    case True
    let ?t = "fold insert_prediction_row (map insert_values b) t"
    let ?p4 = "logging_info
                 (Batch_inserted idx n (length b) what
                    ((monotonic p (clock_reads p) - st) * (of_nat n / of_nat idx - 1)))
                 (snd (time_monotonic (?p1\<lparr>db := (db p)\<lparr>prediction := Some ?t\<rparr>\<rparr>)))"
    from True Cons.prems
    have run: "upsert_batches insert_prediction what n st idx (b # bs) p
                 = upsert_batches insert_prediction what n st (Suc idx) bs ?p4"
      by (simp add: execute_all_insert_prediction Let_def state_simps)
    have c: "prediction (db ?p4) = Some ?t" by (simp add: state_simps)
    from Cons.IH [OF c, of "Suc idx"] True show ?thesis
      unfolding run by (simp add: state_simps)
  next
    case False
    let ?v = "(db p)\<lparr>prediction :=
                Some (fold insert_prediction_row
                        (map insert_values (takeWhile prediction_accepted b)) t)\<rparr>"
    from False Cons.prems
    have run: "upsert_batches insert_prediction what n st idx (b # bs) p
                 = Raised NumericValueOutOfRange (?p1\<lparr>db := rollback (db p) ?v\<rparr>)"
      by (simp add: execute_all_insert_prediction Let_def state_simps)
    show ?thesis
      unfolding run using False Cons.prems
      by (intro exI [of _ "length (takeWhile prediction_accepted b)"])
         (simp add: rollback_def keep_sequence_Some keep_sequence_same
                    fold_insert_prediction_row_sequence state_simps)
  qed
qed

subsection \<open>What \<open>update_geometries\<close> does\<close>

lemma cell_rows_create:
  "fst (create_table_if_not_exists (cell d)) = cell_rows d"
  by (cases "cell d") (simp_all add: create_table_if_not_exists_def cell_rows_def)

lemma create_table_Some: "create_table_if_not_exists (Some t) = t"
  by (simp add: create_table_if_not_exists_def)

text \<open>The last log line of a method changes the log only.\<close>

lemma finish_db:
  "db (state_of (case r of Raised e q \<Rightarrow> Raised e q
                 | Returned q \<Rightarrow> Returned (logging_info m q))) = db (state_of r)"
  by (cases r) (simp_all add: logging_info_simps)

lemma finish_xr:
  "xr (state_of (case r of Raised e q \<Rightarrow> Raised e q
                 | Returned q \<Rightarrow> Returned (logging_info m q))) = xr (state_of r)"
  by (cases r) (simp_all add: logging_info_simps)

lemma finish_batch_size:
  "batch_size (state_of (case r of Raised e q \<Rightarrow> Raised e q
                 | Returned q \<Rightarrow> Returned (logging_info m q))) = batch_size (state_of r)"
  by (cases r) (simp_all add: logging_info_simps)

lemma finish_exception:
  "exception_of (case r of Raised e q \<Rightarrow> Raised e q
                 | Returned q \<Rightarrow> Returned (logging_info m q)) = exception_of r"
  by (cases r) simp_all

lemma finish_logged:
  "set (logged (state_of r))
     \<subseteq> set (logged (state_of (case r of Raised e q \<Rightarrow> Raised e q
                 | Returned q \<Rightarrow> Returned (logging_info m q))))"
  by (cases r) (auto simp: logging_info_simps)

text \<open>
  A run that gets to its loop: the state it ends in, whether it returns or a chunk
  fails. \<open>extra\<close> counts the sequence values that a failed chunk used.
\<close>

lemma update_geometries_loop:
  assumes "xr p = Some ds"
    and "cell_geometries (xc_values ds) (yc_values ds) = Inr recs"
    and "batch_size p \<noteq> 0"
  shows "\<exists>extra.
           cell (db (state_of (update_geometries p)))
             = Some (fst (fold insert_cell
                            (concat (takeWhile (list_all geometry_accepted)
                                       (batches recs (batch_size p))))
                            (create_table_if_not_exists (cell (db p)))),
                     snd (fold insert_cell
                            (concat (takeWhile (list_all geometry_accepted)
                                       (batches recs (batch_size p))))
                            (create_table_if_not_exists (cell (db p))))
                       + int extra)
           \<and> (list_all geometry_accepted recs \<longrightarrow> extra = 0)
           \<and> prediction (db (state_of (update_geometries p))) = prediction (db p)
           \<and> prediction_latest (db (state_of (update_geometries p)))
               = prediction_latest (db p)
           \<and> exception_of (update_geometries p)
               = (if list_all geometry_accepted recs then None
                  else Some NumericValueOutOfRange)
           \<and> xr (state_of (update_geometries p)) = xr p
           \<and> batch_size (state_of (update_geometries p)) = batch_size p
           \<and> (\<forall>k < length (takeWhile (list_all geometry_accepted)
                                 (batches recs (batch_size p))).
                 (INFO, Batch_inserted (Suc k) (n_batches_of (length recs) (batch_size p))
                          (length (batches recs (batch_size p) ! k)) ''geometries''
                          ((monotonic p (Suc (clock_reads p + k)) - monotonic p (clock_reads p))
                             * (of_nat (n_batches_of (length recs) (batch_size p))
                                  / of_nat (Suc k) - 1)))
                   \<in> set (logged (state_of (update_geometries p))))"
proof -
  let ?t0 = "create_table_if_not_exists (cell (db p))"
  let ?n = "n_batches_of (length recs) (batch_size p)"
  let ?st = "monotonic p (clock_reads p)"
  let ?bs = "batches recs (batch_size p)"
  let ?good = "takeWhile (list_all geometry_accepted) ?bs"
  let ?p7 = "snd (time_monotonic
                   (logging_info (Ensuring_table_contains ''cell'' (length recs))
                     (logging_info (Identified_cell_geometries (length recs))
                       (logging_info Identifying_cell_geometries
                         (logging_info (Ensured_table_exists ''cell'')
                           ((logging_info (Ensuring_table_exists ''cell'') p)
                              \<lparr>db := (db p)\<lparr>cell := Some ?t0\<rparr>\<rparr>))))))"
  let ?loop = "upsert_batches insert_geometry ''geometries'' ?n ?st 1 ?bs ?p7"
  have c: "cell (db ?p7) = Some ?t0" by (simp add: state_simps)
  have all: "list_all (list_all geometry_accepted) ?bs = list_all geometry_accepted recs"
    using assms(3) by (simp add: list_all_batches)
  have run: "update_geometries p
               = (case ?loop of
                    Raised e q \<Rightarrow> Raised e q
                  | Returned q \<Rightarrow>
                      Returned (logging_info (Ensured_table_contains ''cell'') q))"
    using assms by (simp add: update_geometries_def Let_def state_simps)
  have st: "db (state_of (update_geometries p)) = db (state_of ?loop)"
      "xr (state_of (update_geometries p)) = xr (state_of ?loop)"
      "batch_size (state_of (update_geometries p)) = batch_size (state_of ?loop)"
      "exception_of (update_geometries p) = exception_of ?loop"
      "set (logged (state_of ?loop)) \<subseteq> set (logged (state_of (update_geometries p)))"
    unfolding run
    by (rule finish_db finish_xr finish_batch_size finish_exception finish_logged)+
  from upsert_batches_geometry [OF c, of "''geometries''" ?n ?st 1 ?bs]
  obtain extra where
    l: "cell (db (state_of ?loop))
          = Some (fst (fold insert_cell (concat ?good) ?t0),
                  snd (fold insert_cell (concat ?good) ?t0) + int extra)"
       "list_all (list_all geometry_accepted) ?bs \<longrightarrow> extra = 0"
       "prediction (db (state_of ?loop)) = prediction (db ?p7)"
       "prediction_latest (db (state_of ?loop)) = prediction_latest (db ?p7)"
       "exception_of ?loop = (if list_all (list_all geometry_accepted) ?bs then None
                              else Some NumericValueOutOfRange)"
       "clock_reads (state_of ?loop) = clock_reads ?p7 + length ?good"
    by blast
  have f: "xr (state_of ?loop) = xr p" "batch_size (state_of ?loop) = batch_size p"
    using upsert_batches_frame [of insert_geometry "''geometries''" ?n ?st 1 ?bs ?p7]
    by (simp_all add: state_simps)
  have r: "(INFO, Batch_inserted (Suc k) ?n (length (?bs ! k)) ''geometries''
              ((monotonic p (Suc (clock_reads p + k)) - ?st) * (of_nat ?n / of_nat (Suc k) - 1)))
             \<in> set (logged (state_of (update_geometries p)))" if "k < length ?good" for k
  proof -
    from that l(6) have "k < clock_reads (state_of ?loop) - clock_reads ?p7" by simp
    from upsert_batches_report [OF this] st(5) show ?thesis
      by (auto simp: state_simps)
  qed
  from l(1-5) f r show ?thesis
    unfolding st(1-4) all by (intro exI [of _ extra]) (simp add: state_simps)
qed

lemma update_geometries_raises:
  assumes "xr p = None
           \<or> (\<exists>ds e. xr p = Some ds \<and> cell_geometries (xc_values ds) (yc_values ds) = Inl e)
           \<or> batch_size p = 0"
  shows "\<exists>e q. update_geometries p = Raised e q
           \<and> db q = (db p)\<lparr>cell := Some (create_table_if_not_exists (cell (db p)))\<rparr>
           \<and> xr q = xr p \<and> batch_size q = batch_size p"
  using assms
  by (auto simp: update_geometries_def Let_def state_simps split: option.splits sum.splits)

lemma update_geometries_cases:
  obtains (raises) e q where
      "xr p = None
       \<or> (\<exists>ds e. xr p = Some ds \<and> cell_geometries (xc_values ds) (yc_values ds) = Inl e)
       \<or> batch_size p = 0"
      "update_geometries p = Raised e q"
      "db q = (db p)\<lparr>cell := Some (create_table_if_not_exists (cell (db p)))\<rparr>"
      "xr q = xr p" "batch_size q = batch_size p"
  | (loop) ds recs where "xr p = Some ds"
      "cell_geometries (xc_values ds) (yc_values ds) = Inr recs" "batch_size p \<noteq> 0"
proof (cases "xr p = None
           \<or> (\<exists>ds e. xr p = Some ds \<and> cell_geometries (xc_values ds) (yc_values ds) = Inl e)
           \<or> batch_size p = 0")
  case True
  from update_geometries_raises [OF this] raises [OF this] show ?thesis by blast
next
  case False
  then obtain ds where ds: "xr p = Some ds" by auto
  with False obtain recs where
    recs: "cell_geometries (xc_values ds) (yc_values ds) = Inr recs"
    by (cases "cell_geometries (xc_values ds) (yc_values ds)") auto
  from False have b: "batch_size p \<noteq> 0" by simp
  from loop [OF ds recs b] show ?thesis .
qed

text \<open>
  The geometry table after a run that gets to its loop: the rows are those of the
  chunks that were committed, and the sequence is at or beyond their inserts.
\<close>

lemma update_geometries_loop_rows:
  assumes "xr p = Some ds"
    and "cell_geometries (xc_values ds) (yc_values ds) = Inr recs"
    and "batch_size p \<noteq> 0"
  obtains s where
    "cell (db (state_of (update_geometries p)))
       = Some (fst (fold insert_cell
                      (concat (takeWhile (list_all geometry_accepted)
                                 (batches recs (batch_size p))))
                      (create_table_if_not_exists (cell (db p)))), s)"
    "snd (fold insert_cell
            (concat (takeWhile (list_all geometry_accepted) (batches recs (batch_size p))))
            (create_table_if_not_exists (cell (db p)))) \<le> s"
    "xr (state_of (update_geometries p)) = xr p"
    "batch_size (state_of (update_geometries p)) = batch_size p"
proof -
  from update_geometries_loop [OF assms] obtain extra where
    e: "cell (db (state_of (update_geometries p)))
       = Some (fst (fold insert_cell
                      (concat (takeWhile (list_all geometry_accepted)
                                 (batches recs (batch_size p))))
                      (create_table_if_not_exists (cell (db p)))),
               snd (fold insert_cell
                      (concat (takeWhile (list_all geometry_accepted)
                                 (batches recs (batch_size p))))
                      (create_table_if_not_exists (cell (db p)))) + int extra)"
    "xr (state_of (update_geometries p)) = xr p"
    "batch_size (state_of (update_geometries p)) = batch_size p"
    by blast
  have "snd (fold insert_cell
            (concat (takeWhile (list_all geometry_accepted) (batches recs (batch_size p))))
            (create_table_if_not_exists (cell (db p))))
          \<le> snd (fold insert_cell
            (concat (takeWhile (list_all geometry_accepted) (batches recs (batch_size p))))
            (create_table_if_not_exists (cell (db p)))) + int extra"
    by simp
  with e(1) show thesis using e(2,3) by (rule that)
qed

text \<open>
  Claim C4. On a database whose cell ids came from the sequence, running
  \<open>update_geometries\<close> again on the state the first run left (same dataset, same batch
  size) leaves the rows of the geometry table as they were after the first run, in
  number and in content; and a run only appends to the rows it found, so that no
  existing row is updated. (The sequence moves on with every insert that is tried; the
  rows do not.) Both hold whether the run returns or raises: a run that raises in its
  loop has committed the chunks before the failing one, and the second run finds their
  rows and fails at the same chunk.
\<close>

theorem cell_upserter_idempotent:
  assumes "serial_ahead (db p)"
  shows "cell_rows (db (state_of (update_geometries (state_of (update_geometries p)))))
           = cell_rows (db (state_of (update_geometries p)))
         \<and> take (length (cell_rows (db p))) (cell_rows (db (state_of (update_geometries p))))
           = cell_rows (db p)"
proof (cases p rule: update_geometries_cases)
  case (raises e q)
  from raises(1,4,5) have
    "xr q = None
     \<or> (\<exists>ds e. xr q = Some ds \<and> cell_geometries (xc_values ds) (yc_values ds) = Inl e)
     \<or> batch_size q = 0"
    by simp
  from update_geometries_raises [OF this] obtain e' q' where
    q': "update_geometries q = Raised e' q'"
        "db q' = (db q)\<lparr>cell := Some (create_table_if_not_exists (cell (db q)))\<rparr>"
    by blast
  have "cell_rows (db q') = cell_rows (db q)"
    by (simp add: q'(2) raises(3) cell_rows_def create_table_Some)
  moreover have "cell_rows (db q) = cell_rows (db p)"
    by (simp add: raises(3) cell_rows_def cell_rows_create [unfolded cell_rows_def])
  ultimately show ?thesis by (simp add: raises(2) q'(1))
next
  case (loop ds recs)
  let ?t0 = "create_table_if_not_exists (cell (db p))"
  let ?done = "concat (takeWhile (list_all geometry_accepted) (batches recs (batch_size p)))"
  let ?q = "state_of (update_geometries p)"
  have ok: "cell_ids_from_sequence ?t0" using assms by (rule create_table_keeps_ids)
  from update_geometries_loop_rows [OF loop] obtain s where
    q: "cell (db ?q) = Some (fst (fold insert_cell ?done ?t0), s)"
       "snd (fold insert_cell ?done ?t0) \<le> s"
       "xr ?q = xr p" "batch_size ?q = batch_size p"
    by blast
  from loop q(3,4) have h: "xr ?q = Some ds"
      "cell_geometries (xc_values ds) (yc_values ds) = Inr recs" "batch_size ?q \<noteq> 0"
    by simp_all
  from update_geometries_loop_rows [OF h] obtain s' where
    "cell (db (state_of (update_geometries ?q)))
       = Some (fst (fold insert_cell
                      (concat (takeWhile (list_all geometry_accepted)
                                 (batches recs (batch_size ?q))))
                      (create_table_if_not_exists (cell (db ?q)))), s')"
    by blast
  then have "cell_rows (db (state_of (update_geometries ?q)))
               = fst (fold insert_cell ?done (fst (fold insert_cell ?done ?t0), s))"
    by (simp add: q(1,4) cell_rows_def create_table_Some)
  also have "\<dots> = fst (fold insert_cell ?done ?t0)"
    using fold_insert_cell_present [OF ok, of ?done]
    by (intro fold_insert_cell_skips [THEN trans]) simp_all
  also have "\<dots> = cell_rows (db ?q)"
    by (simp add: q(1) cell_rows_def)
  finally have twice: "cell_rows (db (state_of (update_geometries ?q))) = cell_rows (db ?q)" .
  obtain new where "fst (fold insert_cell ?done ?t0) = fst ?t0 @ new"
    using fold_insert_cell_appends by blast
  then have "cell_rows (db ?q) = cell_rows (db p) @ new"
    by (simp add: q(1) cell_rows_def cell_rows_create [unfolded cell_rows_def])
  with twice show ?thesis by simp
qed


theorem cell_upserter_idempotent_witness:
  "serial_ahead (db example_processor)
   \<and> cell_rows (db (state_of (update_geometries (state_of (update_geometries example_processor)))))
       = cell_rows (db (state_of (update_geometries example_processor)))
   \<and> take (length (cell_rows (db example_processor)))
        (cell_rows (db (state_of (update_geometries example_processor))))
       = cell_rows (db example_processor)"
proof -
  have "serial_ahead (db example_processor)"
    by (simp add: example_processor_def Processor_def fresh_database_def serial_ahead_def)
  with cell_upserter_idempotent [of example_processor] show ?thesis by simp
qed

subsection \<open>What \<open>update_predictions\<close> does\<close>

lemma prediction_rows_create:
  "fst (create_table_if_not_exists (prediction d)) = prediction_rows d"
  by (cases "prediction d") (simp_all add: create_table_if_not_exists_def prediction_rows_def)

text \<open>
  A run that gets to its loop: the state it ends in, whether it returns or a chunk
  fails.
\<close>

lemma update_predictions_loop:
  assumes "xr p = Some ds" and "cell (db p) = Some geom" and "batch_size p \<noteq> 0"
  shows "\<exists>extra.
           prediction (db (state_of (update_predictions p)))
             = Some (fst (fold insert_prediction_row
                            (map insert_values
                               (concat (takeWhile (list_all prediction_accepted)
                                  (batches (pd_merge (df_predictions ds) (df_cells (fst geom)))
                                     (batch_size p)))))
                            (create_table_if_not_exists (prediction (db p)))),
                     snd (fold insert_prediction_row
                            (map insert_values
                               (concat (takeWhile (list_all prediction_accepted)
                                  (batches (pd_merge (df_predictions ds) (df_cells (fst geom)))
                                     (batch_size p)))))
                            (create_table_if_not_exists (prediction (db p))))
                       + int extra)
           \<and> (list_all prediction_accepted
                 (pd_merge (df_predictions ds) (df_cells (fst geom))) \<longrightarrow> extra = 0)
           \<and> cell (db (state_of (update_predictions p))) = cell (db p)
           \<and> prediction_latest (db (state_of (update_predictions p)))
               = prediction_latest (db p)
           \<and> exception_of (update_predictions p)
               = (if list_all prediction_accepted
                       (pd_merge (df_predictions ds) (df_cells (fst geom)))
                  then None else Some NumericValueOutOfRange)
           \<and> xr (state_of (update_predictions p)) = xr p
           \<and> batch_size (state_of (update_predictions p)) = batch_size p
           \<and> (\<forall>k < length (takeWhile (list_all prediction_accepted)
                                 (batches (pd_merge (df_predictions ds) (df_cells (fst geom)))
                                    (batch_size p))).
                 (INFO, Batch_inserted (Suc k)
                          (n_batches_of
                             (length (pd_merge (df_predictions ds) (df_cells (fst geom))))
                             (batch_size p))
                          (length (batches
                             (pd_merge (df_predictions ds) (df_cells (fst geom)))
                             (batch_size p) ! k)) ''predictions''
                          ((monotonic p (Suc (clock_reads p + k)) - monotonic p (clock_reads p))
                             * (of_nat (n_batches_of
                                  (length (pd_merge (df_predictions ds) (df_cells (fst geom))))
                                  (batch_size p))
                                  / of_nat (Suc k) - 1)))
                   \<in> set (logged (state_of (update_predictions p))))"
proof -
  let ?t0 = "create_table_if_not_exists (prediction (db p))"
  let ?m = "pd_merge (df_predictions ds) (df_cells (fst geom))"
  let ?n = "n_batches_of (length ?m) (batch_size p)"
  let ?st = "monotonic p (clock_reads p)"
  let ?bs = "batches ?m (batch_size p)"
  let ?good = "takeWhile (list_all prediction_accepted) ?bs"
  let ?p9 = "snd (time_monotonic
               (logging_info (Ensuring_table_contains ''prediction'' (length ?m))
                 (logging_info (Identified_cell_IDs (length ?m))
                   (logging_info Identifying_cell_IDs
                     (logging_info (Loaded_predictions (length (df_predictions ds)))
                       (logging_info Loading_predictions
                         (logging_info (Ensured_table_exists ''prediction'')
                           ((logging_info (Ensuring_table_exists ''prediction'') p)
                              \<lparr>db := (db p)\<lparr>prediction := Some ?t0\<rparr>\<rparr>))))))))"
  let ?loop = "upsert_batches insert_prediction ''predictions'' ?n ?st 1 ?bs ?p9"
  have c: "prediction (db ?p9) = Some ?t0" by (simp add: state_simps)
  have all: "list_all (list_all prediction_accepted) ?bs = list_all prediction_accepted ?m"
    using assms(3) by (simp add: list_all_batches)
  have run: "update_predictions p
               = (case ?loop of
                    Raised e q \<Rightarrow> Raised e q
                  | Returned q \<Rightarrow>
                      Returned (logging_info (Ensured_table_contains ''prediction'') q))"
    using assms by (simp add: update_predictions_def Let_def state_simps)
  have st: "db (state_of (update_predictions p)) = db (state_of ?loop)"
      "xr (state_of (update_predictions p)) = xr (state_of ?loop)"
      "batch_size (state_of (update_predictions p)) = batch_size (state_of ?loop)"
      "exception_of (update_predictions p) = exception_of ?loop"
      "set (logged (state_of ?loop)) \<subseteq> set (logged (state_of (update_predictions p)))"
    unfolding run
    by (rule finish_db finish_xr finish_batch_size finish_exception finish_logged)+
  from upsert_batches_prediction [OF c, of "''predictions''" ?n ?st 1 ?bs]
  obtain extra where
    l: "prediction (db (state_of ?loop))
          = Some (fst (fold insert_prediction_row (map insert_values (concat ?good)) ?t0),
                  snd (fold insert_prediction_row (map insert_values (concat ?good)) ?t0)
                    + int extra)"
       "list_all (list_all prediction_accepted) ?bs \<longrightarrow> extra = 0"
       "cell (db (state_of ?loop)) = cell (db ?p9)"
       "prediction_latest (db (state_of ?loop)) = prediction_latest (db ?p9)"
       "exception_of ?loop = (if list_all (list_all prediction_accepted) ?bs then None
                              else Some NumericValueOutOfRange)"
       "clock_reads (state_of ?loop) = clock_reads ?p9 + length ?good"
    by blast
  have f: "xr (state_of ?loop) = xr p" "batch_size (state_of ?loop) = batch_size p"
    using upsert_batches_frame [of insert_prediction "''predictions''" ?n ?st 1 ?bs ?p9]
    by (simp_all add: state_simps)
  have r: "(INFO, Batch_inserted (Suc k) ?n (length (?bs ! k)) ''predictions''
              ((monotonic p (Suc (clock_reads p + k)) - ?st) * (of_nat ?n / of_nat (Suc k) - 1)))
             \<in> set (logged (state_of (update_predictions p)))" if "k < length ?good" for k
  proof -
    from that l(6) have "k < clock_reads (state_of ?loop) - clock_reads ?p9" by simp
    from upsert_batches_report [OF this] st(5) show ?thesis
      by (auto simp: state_simps)
  qed
  from l(1-5) f r show ?thesis
    unfolding st(1-4) all by (intro exI [of _ extra]) (simp add: state_simps)
qed

lemma update_predictions_raises:
  assumes "xr p = None \<or> cell (db p) = None \<or> batch_size p = 0"
  shows "\<exists>e q. update_predictions p = Raised e q
           \<and> prediction_rows (db q) = prediction_rows (db p)
           \<and> cell (db q) = cell (db p)"
  using assms
  by (auto simp: update_predictions_def Let_def state_simps prediction_rows_def
                 create_table_if_not_exists_def
           split: option.splits)

subsection \<open>The records that reach the predictions table\<close>

lemma filter_xr_where:
  "filter notna (map xr_where es) = filter (\<lambda>e. mean_positive e \<and> notna e) es"
proof (induction es)
  case Nil
  show ?case by simp
next
  case (Cons e es)
  have "\<not> mean_positive e \<Longrightarrow> \<not> notna (xr_where e)"
    by (simp add: xr_where_def notna_def)
  moreover have "mean_positive e \<Longrightarrow> xr_where e = e"
    by (simp add: xr_where_def)
  ultimately show ?case using Cons.IH by (cases "mean_positive e") auto
qed

lemma length_to_numeric: "length (to_numeric_downcast_integer column) = length column"
  by (simp add: to_numeric_downcast_integer_def Let_def)

lemma rows_df_predictions:
  "map row (df_predictions ds) = filter (\<lambda>e. mean_positive e \<and> notna e) (to_dataframe ds)"
proof -
  let ?rows = "dropna (map xr_where (to_dataframe ds))"
  let ?xs = "to_numeric_downcast_integer (map (\<lambda>e. 1000 * xc e) ?rows)"
  let ?ys = "to_numeric_downcast_integer (map (\<lambda>e. 1000 * yc e) ?rows)"
  have "map row (df_predictions ds) = map fst (zip ?rows (zip ?xs ?ys))"
    by (simp add: df_predictions_def Let_def comp_def case_prod_beta)
  also have "\<dots> = ?rows"
    by (simp add: length_to_numeric)
  finally show ?thesis by (simp add: dropna_def filter_xr_where)
qed

lemma df_predictions_row:
  "l \<in> set (df_predictions ds) \<Longrightarrow> mean_positive (row l) \<and> notna (row l)"
proof -
  assume "l \<in> set (df_predictions ds)"
  then have "row l \<in> set (map row (df_predictions ds))" by simp
  then show ?thesis by (simp add: rows_df_predictions)
qed

lemma pd_merge_left: "(l, c) \<in> set (pd_merge left right) \<Longrightarrow> l \<in> set left"
proof -
  assume "(l, c) \<in> set (pd_merge left right)"
  then obtain x where x: "x \<in> set left"
      "(l, c) \<in> set (case filter (key_matches x) right of
                        [] \<Rightarrow> [(x, None)]
                      | ms \<Rightarrow> map (\<lambda>m. (x, Some m)) ms)"
    by (auto simp: pd_merge_def)
  from x(2) have "l = x"
    by (cases "filter (key_matches x) right") auto
  with x(1) show ?thesis by simp
qed

lemma insert_prediction_row_rows:
  "r \<in> set (fst (insert_prediction_row v t)) \<Longrightarrow> r \<in> set (fst t) \<or> values_of r = v"
  by (cases v)
     (auto simp: insert_prediction_row_def Let_def values_of_def split: if_splits)

lemma fold_insert_prediction_row_rows:
  "r \<in> set (fst (fold insert_prediction_row vs t))
   \<Longrightarrow> r \<in> set (fst t) \<or> values_of r \<in> set vs"
proof (induction vs arbitrary: t)
  case Nil
  then show ?case by simp
next
  case (Cons v vs)
  from Cons.prems have "r \<in> set (fst (fold insert_prediction_row vs (insert_prediction_row v t)))"
    by simp
  from Cons.IH [OF this] insert_prediction_row_rows [of r v t] show ?case by auto
qed

lemma update_predictions_new_rows:
  assumes "r \<in> set (prediction_rows (db (state_of (update_predictions p))))"
  shows "r \<in> set (prediction_rows (db p))
         \<or> (\<exists>ds l c. xr p = Some ds \<and> l \<in> set (df_predictions ds)
                     \<and> values_of r = insert_values (l, c))"
proof (cases "xr p = None \<or> cell (db p) = None \<or> batch_size p = 0")
  case True
  from update_predictions_raises [OF this] assms show ?thesis by auto
next
  case False
  then obtain ds geom where h: "xr p = Some ds" "cell (db p) = Some geom" "batch_size p \<noteq> 0"
    by auto
  let ?m = "pd_merge (df_predictions ds) (df_cells (fst geom))"
  let ?done = "concat (takeWhile (list_all prediction_accepted) (batches ?m (batch_size p)))"
  from update_predictions_loop [OF h] obtain s where
    "prediction (db (state_of (update_predictions p)))
       = Some (fst (fold insert_prediction_row (map insert_values ?done)
                      (create_table_if_not_exists (prediction (db p)))), s)"
    by blast
  with assms have "r \<in> set (fst (fold insert_prediction_row (map insert_values ?done)
                                (create_table_if_not_exists (prediction (db p)))))"
    by (simp add: prediction_rows_def)
  from fold_insert_prediction_row_rows [OF this]
  consider "r \<in> set (prediction_rows (db p))" | "values_of r \<in> set (map insert_values ?done)"
    by (auto simp: prediction_rows_create)
  then show ?thesis
  proof cases
    case 1
    then show ?thesis by simp
  next
    case 2
    then obtain l c where lc: "(l, c) \<in> set ?done" "values_of r = insert_values (l, c)"
      by auto
    from lc(1) set_concat_takeWhile [of "list_all prediction_accepted" "batches ?m (batch_size p)"]
    have "(l, c) \<in> set (concat (batches ?m (batch_size p)))" by blast
    with h(3) have "(l, c) \<in> set ?m" by (simp add: concat_batches)
    with pd_merge_left [of l c] h(1) lc(2) show ?thesis by blast
  qed
qed

lemma insert_values_mean:
  "values_of r = insert_values (l, c) \<Longrightarrow> p_mean r = mean (row l) \<and> p_stddev r = stddev (row l)"
  by (simp add: values_of_def insert_values_def)

text \<open>
  Claim C5. The records that go on to cell resolution all have a strictly positive
  mean; every row that a run of \<open>update_predictions\<close> adds to the predictions table
  has a strictly positive mean, whether the run returns or raises; so a table whose
  rows all have a positive mean still has only such rows after the run.
\<close>

theorem positive_mean_only:
  "list_all (\<lambda>l. mean_positive (row l)) (df_predictions ds)
   \<and> list_all (\<lambda>r. r \<in> set (prediction_rows (db p)) \<or> positive_mean r)
        (prediction_rows (db (state_of (update_predictions p))))
   \<and> (list_all positive_mean (prediction_rows (db p))
        \<longrightarrow> list_all positive_mean (prediction_rows (db (state_of (update_predictions p)))))"
proof -
  have a: "list_all (\<lambda>l. mean_positive (row l)) (df_predictions ds)"
    by (simp add: list_all_iff df_predictions_row)
  have b: "r \<in> set (prediction_rows (db p)) \<or> positive_mean r"
    if "r \<in> set (prediction_rows (db (state_of (update_predictions p))))" for r
  proof -
    from update_predictions_new_rows [OF that]
    consider "r \<in> set (prediction_rows (db p))"
      | ds l c where "l \<in> set (df_predictions ds)" "values_of r = insert_values (l, c)"
      by blast
    then show ?thesis
    proof cases
      case 1
      then show ?thesis by simp
    next
      case 2
      from df_predictions_row [OF 2(1)] insert_values_mean [OF 2(2)]
      have "positive_mean r"
        by (simp add: positive_mean_def mean_positive_def)
      then show ?thesis by simp
    qed
  qed
  from a b show ?thesis by (auto simp: list_all_iff)
qed

theorem positive_mean_only_witness:
  "list_all positive_mean (prediction_rows (db populated_processor))
   \<and> list_all positive_mean
       (prediction_rows (db (state_of (update_predictions populated_processor))))"
proof -
  have "list_all positive_mean (prediction_rows (db populated_processor))"
    by (simp add: populated_processor_def fresh_database_def prediction_rows_def)
  with positive_mean_only [of example_dataset populated_processor] show ?thesis by simp
qed



subsection \<open>Runs in which every record is accepted\<close>

lemma takeWhile_all: "list_all P xs \<Longrightarrow> takeWhile P xs = xs"
  by (simp add: list_all_iff)




lemma update_geometries_accepted:
  assumes "xr p = Some ds"
    and "cell_geometries (xc_values ds) (yc_values ds) = Inr recs"
    and "batch_size p \<noteq> 0"
    and "list_all geometry_accepted recs"
  shows "exception_of (update_geometries p) = None"
    and "cell (db (state_of (update_geometries p)))
           = Some (fold insert_cell recs (create_table_if_not_exists (cell (db p))))"
proof -
  from assms(3,4)
  have t: "takeWhile (list_all geometry_accepted) (batches recs (batch_size p))
             = batches recs (batch_size p)"
    by (simp add: takeWhile_all list_all_batches)
  from update_geometries_loop [OF assms(1-3)] assms(3,4)
  show "exception_of (update_geometries p) = None"
    and "cell (db (state_of (update_geometries p)))
           = Some (fold insert_cell recs (create_table_if_not_exists (cell (db p))))"
    unfolding t by (auto simp: concat_batches)
qed

lemma update_predictions_accepted:
  assumes "xr p = Some ds" and "cell (db p) = Some geom" and "batch_size p \<noteq> 0"
    and "list_all prediction_accepted (pd_merge (df_predictions ds) (df_cells (fst geom)))"
  shows "exception_of (update_predictions p) = None"
    and "prediction (db (state_of (update_predictions p)))
           = Some (fold insert_prediction_row
                     (map insert_values (pd_merge (df_predictions ds) (df_cells (fst geom))))
                     (create_table_if_not_exists (prediction (db p))))"
proof -
  let ?m = "pd_merge (df_predictions ds) (df_cells (fst geom))"
  from assms(3,4)
  have t: "takeWhile (list_all prediction_accepted) (batches ?m (batch_size p))
             = batches ?m (batch_size p)"
    by (simp add: takeWhile_all list_all_batches)
  from update_predictions_loop [OF assms(1-3)] assms(3,4)
  show "exception_of (update_predictions p) = None"
    and "prediction (db (state_of (update_predictions p)))
           = Some (fold insert_prediction_row (map insert_values ?m)
                     (create_table_if_not_exists (prediction (db p))))"
    unfolding t by (auto simp: concat_batches)
qed

subsection \<open>The example run, evaluated\<close>


lemma ex_n: "n_batches_of 4 3 = 2" "n_batches_of 2 3 = 1"
  by (simp_all add: n_batches_of_div)

lemma ex_cells:
  "df_cells (fst example_cells) = [(1, 0, 0), (2, 0, 10000), (3, 10000, 0), (4, 10000, 10000)]"
  by (simp add: example_cells_def records_def geometry_record_def centroid_m_def py_int_def
        insert_cell_def cell_conflict_def df_cells_def Let_def)

lemma ex_rows:
  "dropna (map xr_where example_entries) = [example_entries ! 0, example_entries ! 3]"
  by (simp add: example_entries_def dropna_def xr_where_def mean_positive_def notna_def)

lemma ex_downcast:
  "to_numeric_downcast_integer [0, 10000] = [0, 10000]"
  by (simp add: to_numeric_downcast_integer_def allclose_def atol_def py_int_def)

lemma ex_df:
  "df_predictions example_dataset
     = [\<lparr>row = example_entries ! 0, xc_m = 0, yc_m = 0\<rparr>,
        \<lparr>row = example_entries ! 3, xc_m = 10000, yc_m = 10000\<rparr>]"
proof -
  have "map (\<lambda>e. 1000 * xc e) [example_entries ! 0, example_entries ! 3] = [0, 10000]"
       "map (\<lambda>e. 1000 * yc e) [example_entries ! 0, example_entries ! 3] = [0, 10000]"
    by (simp_all add: example_entries_def)
  then show ?thesis
    by (simp add: df_predictions_def example_dataset_def Let_def ex_rows ex_downcast)
qed

lemma ex_merge:
  "pd_merge (df_predictions example_dataset) (df_cells (fst example_cells))
     = [(\<lparr>row = example_entries ! 0, xc_m = 0, yc_m = 0\<rparr>, Some (1, 0, 0)),
        (\<lparr>row = example_entries ! 3, xc_m = 10000, yc_m = 10000\<rparr>, Some (4, 10000, 10000))]"
  by (simp add: ex_df ex_cells pd_merge_def key_matches_def)


lemma ex_accepted:
  "list_all geometry_accepted (records 5000 5000 [0, 10] [0, 10])"
  "list_all prediction_accepted
     (pd_merge (df_predictions example_dataset) (df_cells (fst example_cells)))"
  by (simp_all add: ex_merge records_def geometry_record_def centroid_m_def py_int_def
        geometry_accepted_def prediction_accepted_def int4_def float4_def Let_def
        example_entries_def)

text \<open>The rows that the example run writes: the first and the last entry, resolved.\<close>

lemma ex_written:
  "map values_of
     (prediction_rows (db (state_of (update_predictions populated_processor))))
     = [(19675, 1, Some 1, Some (1 / 2), Some (1 / 10)),
        (19675, 1, Some 4, Some (3 / 4), Some (1 / 5))]"
proof -
  have h: "xr populated_processor = Some example_dataset"
      "cell (db populated_processor) = Some example_cells"
      "batch_size populated_processor \<noteq> 0"
    by (simp_all add: populated_processor_def example_processor_def Processor_def)
  have t0: "create_table_if_not_exists (prediction (db populated_processor)) = ([], 0)"
    by (simp add: populated_processor_def fresh_database_def create_table_if_not_exists_def)
  have "map values_of
          (fst (fold insert_prediction_row
                  (map insert_values
                     (pd_merge (df_predictions example_dataset) (df_cells (fst example_cells))))
                  ([], 0)))
          = [(19675, 1, Some 1, Some (1 / 2), Some (1 / 10)),
             (19675, 1, Some 4, Some (3 / 4), Some (1 / 5))]"
    by (simp add: ex_merge insert_values_def insert_prediction_row_def
                  prediction_conflict_def Let_def values_of_def example_entries_def date_of_def)
  with update_predictions_accepted(2) [OF h ex_accepted(2)] show ?thesis
    by (simp add: t0 prediction_rows_def)
qed



subsection \<open>Progress reports\<close>



subsection \<open>The Latest-View Refresher\<close>

text \<open>
  Claim C8. A run of \<open>update_latest_prediction\<close> drops the view and creates it again.
  When the view does not exist, as in a new database, the run raises
  \<^verbatim>\<open>UndefinedTable\<close> at the drop: it is tried once, nothing is committed and no
  view is created. When the view and the two tables exist, the run returns and the
  view holds the rows of the query, whatever it held before.
\<close>

theorem refresh_needs_existing_view:
  "(prediction_latest (db p) = None
    \<longrightarrow> update_latest_prediction p
          = Raised UndefinedTable (logging_info (Updating_view ''prediction_latest'') p)
        \<and> db (state_of (update_latest_prediction p)) = db p)
   \<and> (prediction_latest (db p) = Some old \<and> prediction (db p) = Some predictions
        \<and> cell (db p) = Some cells
    \<longrightarrow> exception_of (update_latest_prediction p) = None
        \<and> db (state_of (update_latest_prediction p))
            = (db p)\<lparr>prediction_latest :=
                       Some (latest_select (fst predictions) (fst cells))\<rparr>)"
  by (simp add: update_latest_prediction_def Let_def state_simps)

theorem refresh_needs_existing_view_witness:
  "prediction_latest (db example_processor) = None
   \<and> update_latest_prediction example_processor
       = Raised UndefinedTable
           (logging_info (Updating_view ''prediction_latest'') example_processor)
   \<and> prediction_latest (db (state_of (update_latest_prediction example_processor))) = None
   \<and> exception_of (update_latest_prediction
        (example_processor\<lparr>db := \<lparr>cell = Some example_cells, prediction = Some ([], 0),
                                    prediction_latest = Some []\<rparr>\<rparr>)) = None
   \<and> prediction_latest (db (state_of (update_latest_prediction
        (example_processor\<lparr>db := \<lparr>cell = Some example_cells, prediction = Some ([], 0),
                                    prediction_latest = Some []\<rparr>\<rparr>))))
       = Some (latest_select [] (fst example_cells))"
proof -
  have n: "prediction_latest (db example_processor) = None"
    by (simp add: example_processor_def Processor_def fresh_database_def)
  let ?p = "example_processor\<lparr>db := \<lparr>cell = Some example_cells, prediction = Some ([], 0),
                                     prediction_latest = Some []\<rparr>\<rparr>"
  have s: "prediction_latest (db ?p) = Some [] \<and> prediction (db ?p) = Some ([], 0)
           \<and> cell (db ?p) = Some example_cells"
    by simp
  from refresh_needs_existing_view [of example_processor] n
  have a: "update_latest_prediction example_processor
             = Raised UndefinedTable
                 (logging_info (Updating_view ''prediction_latest'') example_processor)
           \<and> db (state_of (update_latest_prediction example_processor))
               = db example_processor"
    by blast
  from refresh_needs_existing_view [of ?p "[]" "([], 0)" example_cells] s
  have b: "exception_of (update_latest_prediction ?p) = None
           \<and> db (state_of (update_latest_prediction ?p))
               = (db ?p)\<lparr>prediction_latest := Some (latest_select [] (fst example_cells))\<rparr>"
    by simp
  from a b n show ?thesis by (simp add: state_simps)
qed

subsection \<open>A blob that cannot be decoded\<close>

text \<open>
  Claim C7 at a blob on which \<^verbatim>\<open>xarray.open_dataset\<close> raises
  \<^verbatim>\<open>ValueError\<close>, for a new processor on a new database. \<open>load\<close> logs the two
  errors and returns normally, with no dataset: it raises nothing, so nothing stops the
  invocation there. \<open>update_geometries\<close>, the next step, then creates the geometry table
  and commits before it raises \<^verbatim>\<open>AttributeError\<close> on the missing dataset.
\<close>

theorem decode_failure_not_raised:
  "exception_of (load \<lparr>name = ''forecast.nc'', open_dataset = Inl ValueError\<rparr>
                   (Processor 3 fresh_database (\<lambda>n. of_nat n))) = None
   \<and> xr (state_of (load \<lparr>name = ''forecast.nc'', open_dataset = Inl ValueError\<rparr>
                      (Processor 3 fresh_database (\<lambda>n. of_nat n)))) = None
   \<and> logged (state_of (load \<lparr>name = ''forecast.nc'', open_dataset = Inl ValueError\<rparr>
                          (Processor 3 fresh_database (\<lambda>n. of_nat n))))
       = [(INFO, Attempting_to_load ''forecast.nc''),
          (ERROR, Could_not_load ''forecast.nc''),
          (ERROR, Exception ValueError)]
   \<and> exception_of (update_geometries
        (state_of (load \<lparr>name = ''forecast.nc'', open_dataset = Inl ValueError\<rparr>
                     (Processor 3 fresh_database (\<lambda>n. of_nat n))))) = Some AttributeError
   \<and> cell fresh_database = None
   \<and> cell (db (state_of (update_geometries
        (state_of (load \<lparr>name = ''forecast.nc'', open_dataset = Inl ValueError\<rparr>
                     (Processor 3 fresh_database (\<lambda>n. of_nat n))))))) = Some ([], 0)"
  by (simp add: load_def update_geometries_def Let_def state_simps Processor_def
                logging_info_def logging_error_def fresh_database_def
                create_table_if_not_exists_def)

subsection \<open>The example tables, evaluated\<close>

lemma ex_cell_rows:
  "fst example_cells
     = [\<lparr>cell_id = 1, centroid_x = 0, centroid_y = 0,
         geom_6931 = ST_GeomFromText [(- 5000, 5000), (5000, 5000), (5000, - 5000),
                                      (- 5000, - 5000), (- 5000, 5000)] 6931,
         geom_4326 = ST_Transform (ST_GeomFromText [(- 5000, 5000), (5000, 5000),
                        (5000, - 5000), (- 5000, - 5000), (- 5000, 5000)] 6931) 4326\<rparr>,
        \<lparr>cell_id = 2, centroid_x = 0, centroid_y = 10000,
         geom_6931 = ST_GeomFromText [(- 5000, 15000), (5000, 15000), (5000, 5000),
                                      (- 5000, 5000), (- 5000, 15000)] 6931,
         geom_4326 = ST_Transform (ST_GeomFromText [(- 5000, 15000), (5000, 15000),
                        (5000, 5000), (- 5000, 5000), (- 5000, 15000)] 6931) 4326\<rparr>,
        \<lparr>cell_id = 3, centroid_x = 10000, centroid_y = 0,
         geom_6931 = ST_GeomFromText [(5000, 5000), (15000, 5000), (15000, - 5000),
                                      (5000, - 5000), (5000, 5000)] 6931,
         geom_4326 = ST_Transform (ST_GeomFromText [(5000, 5000), (15000, 5000),
                        (15000, - 5000), (5000, - 5000), (5000, 5000)] 6931) 4326\<rparr>,
        \<lparr>cell_id = 4, centroid_x = 10000, centroid_y = 10000,
         geom_6931 = ST_GeomFromText [(5000, 15000), (15000, 15000), (15000, 5000),
                                      (5000, 5000), (5000, 15000)] 6931,
         geom_4326 = ST_Transform (ST_GeomFromText [(5000, 15000), (15000, 15000),
                        (15000, 5000), (5000, 5000), (5000, 15000)] 6931) 4326\<rparr>]"
  by (simp add: example_cells_def records_def geometry_record_def centroid_m_def py_int_def
        insert_cell_def cell_conflict_def Let_def)

lemma ex_view:
  "map (\<lambda>v. (prediction_latest_id v, l_date v, l_leadtime v, l_cell_id v))
     (latest_select (fst example_predictions) (fst example_cells))
   = [(1, Some 19675, Some 1, Some 1), (2, Some 19675, Some 2, Some 1)]"
  by (simp add: ex_cell_rows example_predictions_def latest_select_def full_outer_join_def
        max_date_def where_date_def group_by_def select_columns_def row_number_def
        enumerate_eq_zip)

subsection \<open>The rows of the latest view\<close>

lemma full_outer_join_pair:
  "(Some p, Some c) \<in> set (full_outer_join predictions cells)
   \<longleftrightarrow> p \<in> set predictions \<and> c \<in> set cells \<and> p_cell_id p = Some (cell_id c)"
proof
  assume "(Some p, Some c) \<in> set (full_outer_join predictions cells)"
  then obtain p' where p': "p' \<in> set predictions"
      "(Some p, Some c) \<in> set (case filter (\<lambda>c. p_cell_id p' = Some (cell_id c)) cells of
                                  [] \<Rightarrow> [(Some p', None)]
                                | cs \<Rightarrow> map (\<lambda>c. (Some p', Some c)) cs)"
    by (auto simp: full_outer_join_def)
  from p'(2) have "p' = p \<and> c \<in> set (filter (\<lambda>c. p_cell_id p' = Some (cell_id c)) cells)"
    by (cases "filter (\<lambda>c. p_cell_id p' = Some (cell_id c)) cells") auto
  with p'(1) show "p \<in> set predictions \<and> c \<in> set cells \<and> p_cell_id p = Some (cell_id c)"
    by auto
next
  assume a: "p \<in> set predictions \<and> c \<in> set cells \<and> p_cell_id p = Some (cell_id c)"
  let ?F = "\<lambda>p. case filter (\<lambda>c. p_cell_id p = Some (cell_id c)) cells of
                   [] \<Rightarrow> [(Some p, None)]
                 | cs \<Rightarrow> map (\<lambda>c. (Some p, Some c)) cs"
  from a have c: "c \<in> set (filter (\<lambda>c. p_cell_id p = Some (cell_id c)) cells)" by simp
  then have "(Some p, Some c) \<in> set (?F p)"
    by (cases "filter (\<lambda>c. p_cell_id p = Some (cell_id c)) cells") auto
  with a have "\<exists>x \<in> set predictions. (Some p, Some c) \<in> set (?F x)" by blast
  then show "(Some p, Some c) \<in> set (full_outer_join predictions cells)"
    unfolding full_outer_join_def set_append set_concat set_map by blast
qed

lemma full_outer_join_prediction:
  "(Some p, cc) \<in> set (full_outer_join predictions cells) \<Longrightarrow> p \<in> set predictions"
proof -
  assume "(Some p, cc) \<in> set (full_outer_join predictions cells)"
  then obtain p' where p': "p' \<in> set predictions"
      "(Some p, cc) \<in> set (case filter (\<lambda>c. p_cell_id p' = Some (cell_id c)) cells of
                             [] \<Rightarrow> [(Some p', None)]
                           | cs \<Rightarrow> map (\<lambda>c. (Some p', Some c)) cs)"
    by (auto simp: full_outer_join_def)
  from p'(2) have "p' = p"
    by (cases "filter (\<lambda>c. p_cell_id p' = Some (cell_id c)) cells") auto
  with p'(1) show ?thesis by simp
qed

lemma where_date_iff:
  "where_date latest j \<longleftrightarrow> (\<exists>p. fst j = Some p \<and> latest = Some (p_date p))"
  by (cases "fst j"; cases latest) (auto simp: where_date_def)

lemma row_number_columns:
  "map (\<lambda>v. v\<lparr>prediction_latest_id := 0\<rparr>) (row_number rows)
     = map (\<lambda>v. v\<lparr>prediction_latest_id := 0\<rparr>) rows"
proof -
  have "map (\<lambda>v. v\<lparr>prediction_latest_id := 0\<rparr>) (row_number rows)
          = map (\<lambda>nr. (snd nr)\<lparr>prediction_latest_id := 0\<rparr>) (enumerate 0 rows)"
    by (simp add: row_number_def comp_def case_prod_beta)
  also have "\<dots> = map (\<lambda>v. v\<lparr>prediction_latest_id := 0\<rparr>) (map snd (enumerate 0 rows))"
    by (simp only: map_map comp_def)
  also have "\<dots> = map (\<lambda>v. v\<lparr>prediction_latest_id := 0\<rparr>) rows"
    by (simp only: map_snd_enumerate)
  finally show ?thesis .
qed

lemma group_by_columns:
  "map (\<lambda>v. v\<lparr>prediction_latest_id := 0\<rparr>) (group_by joined) = group_by joined"
proof -
  have "v\<lparr>prediction_latest_id := 0\<rparr> = v" if "v \<in> set (group_by joined)" for v
    using that by (auto simp: group_by_def select_columns_def)
  then show ?thesis by (simp add: map_idI)
qed

text \<open>The view without its row numbers is the grouped rows.\<close>

lemma latest_select_columns:
  "map (\<lambda>v. v\<lparr>prediction_latest_id := 0\<rparr>) (latest_select predictions cells)
     = group_by (filter (where_date (max_date predictions))
                   (full_outer_join predictions cells))"
  by (simp add: latest_select_def row_number_columns group_by_columns)

lemma latest_select_date:
  assumes "v \<in> set (latest_select predictions cells)"
  shows "l_date v = max_date predictions \<and> l_date v \<noteq> None"
proof -
  let ?J = "filter (where_date (max_date predictions)) (full_outer_join predictions cells)"
  from assms have "v\<lparr>prediction_latest_id := 0\<rparr>
                     \<in> set (map (\<lambda>v. v\<lparr>prediction_latest_id := 0\<rparr>)
                              (latest_select predictions cells))"
    by auto
  then have "v\<lparr>prediction_latest_id := 0\<rparr> \<in> set (group_by ?J)"
    by (simp only: latest_select_columns)
  then obtain j where j: "j \<in> set ?J" "v\<lparr>prediction_latest_id := 0\<rparr> = select_columns 0 j"
    by (auto simp: group_by_def)
  from j(1) obtain p where p: "fst j = Some p" "max_date predictions = Some (p_date p)"
    by (auto simp: where_date_iff)
  from j(2) have "l_date (v\<lparr>prediction_latest_id := 0\<rparr>) = l_date (select_columns 0 j)"
    by simp
  then have "l_date v = Some (p_date p)"
    by (simp add: select_columns_def p(1))
  with p(2) show ?thesis by simp
qed

lemma latest_select_one_row:
  assumes "cell_pkey cells" and "prediction_unique predictions"
    and "r \<in> set predictions" and "max_date predictions = Some (p_date r)"
    and "c \<in> set cells" and "p_cell_id r = Some (cell_id c)"
  shows "length (rows_of_cell_at (cell_id c) (p_leadtime r) (latest_select predictions cells)) = 1"
proof -
  let ?P = "\<lambda>v. l_cell_id v = Some (cell_id c) \<and> l_leadtime v = Some (p_leadtime r)"
  let ?z = "\<lambda>v. v\<lparr>prediction_latest_id := 0\<rparr>"
  let ?J = "filter (where_date (max_date predictions)) (full_outer_join predictions cells)"
  let ?X = "select_columns 0 (Some r, Some c)"
  have "length (filter ?P (latest_select predictions cells))
          = length (filter ?P (map ?z (latest_select predictions cells)))"
    by (simp add: filter_map comp_def)
  also have "\<dots> = length (filter ?P (group_by ?J))"
    by (simp only: latest_select_columns)
  finally have len: "length (rows_of_cell_at (cell_id c) (p_leadtime r)
                       (latest_select predictions cells))
                     = length (filter ?P (group_by ?J))"
    by (simp add: rows_of_cell_at_def)
  have "(Some r, Some c) \<in> set (full_outer_join predictions cells)"
    using assms(3,5,6) by (simp add: full_outer_join_pair)
  then have "(Some r, Some c) \<in> set ?J"
    using assms(4) by (simp add: where_date_iff)
  then have "?X \<in> select_columns 0 ` set ?J"
    by (rule imageI)
  then have X_in: "?X \<in> set (group_by ?J)"
    by (simp add: group_by_def)
  have X_P: "?P ?X" by (simp add: select_columns_def)
  have inj_c: "inj_on cell_id (set cells)"
    using assms(1) by (simp add: cell_pkey_def distinct_map)
  have inj_r: "inj_on (\<lambda>p. (p_date p, p_leadtime p, p_cell_id p))
                 (set (filter (\<lambda>p. p_cell_id p \<noteq> None) predictions))"
    using assms(2) by (simp add: prediction_unique_def distinct_map)
  have only: "v = ?X" if v: "v \<in> set (group_by ?J)" "?P v" for v
  proof -
    from v(1) have "v \<in> select_columns 0 ` set ?J"
      by (simp add: group_by_def)
    then obtain j where j: "j \<in> set ?J" "v = select_columns 0 j"
      by (rule imageE)
    from j(1) have "where_date (max_date predictions) j" by simp
    then obtain r' where r': "fst j = Some r'" "max_date predictions = Some (p_date r')"
      unfolding where_date_iff by blast
    from v(2) j(2) have sel: "map_option cell_id (snd j) = Some (cell_id c)"
        "map_option p_leadtime (fst j) = Some (p_leadtime r)"
      by (simp_all add: select_columns_def)
    from sel(1) obtain c' where c': "snd j = Some c'" "cell_id c' = cell_id c"
      by (cases "snd j") simp_all
    from r'(1) c'(1) have jj: "j = (Some r', Some c')" by (cases j) simp
    from j(1) have "j \<in> set (full_outer_join predictions cells)" by simp
    then have m: "r' \<in> set predictions \<and> c' \<in> set cells \<and> p_cell_id r' = Some (cell_id c')"
      unfolding jj by (simp only: full_outer_join_pair)
    from m assms(5) c'(2) have cc: "c' = c"
      using inj_onD [OF inj_c] by blast
    from sel(2) r'(1) have "p_leadtime r' = p_leadtime r" by simp
    moreover from r'(2) assms(4) have "p_date r' = p_date r" by simp
    moreover from m c'(2) assms(6) have "p_cell_id r' = p_cell_id r" by simp
    ultimately have eq:
      "(\<lambda>p. (p_date p, p_leadtime p, p_cell_id p)) r'
         = (\<lambda>p. (p_date p, p_leadtime p, p_cell_id p)) r"
      by simp
    have "r' \<in> set (filter (\<lambda>p. p_cell_id p \<noteq> None) predictions)"
         "r \<in> set (filter (\<lambda>p. p_cell_id p \<noteq> None) predictions)"
      using m assms(3,6) by simp_all
    with inj_onD [OF inj_r eq] have "r' = r" by blast
    with jj cc j(2) show ?thesis by simp
  qed
  have d: "distinct (filter ?P (group_by ?J))"
    by (simp add: group_by_def)
  have "set (filter ?P (group_by ?J)) = {?X}"
  proof (intro equalityI subsetI)
    fix v assume "v \<in> set (filter ?P (group_by ?J))"
    then have "v \<in> set (group_by ?J)" "?P v" by simp_all
    then have "v = ?X" by (rule only)
    then show "v \<in> {?X}" by simp
  next
    fix v assume "v \<in> {?X}"
    then have "v = ?X" by simp
    with X_in X_P show "v \<in> set (filter ?P (group_by ?J))" by simp
  qed
  then have "card (set (filter ?P (group_by ?J))) = 1" by simp
  with d have "length (filter ?P (group_by ?J)) = 1"
    by (simp only: distinct_card)
  with len show ?thesis by simp
qed

lemma update_latest_prediction_missing:
  "prediction_latest (db p) = None
   \<Longrightarrow> update_latest_prediction p
         = Raised UndefinedTable (logging_info (Updating_view ''prediction_latest'') p)"
  by (simp add: update_latest_prediction_def Let_def state_simps)

lemma update_latest_prediction_replaces:
  "prediction_latest (db p) = Some old \<Longrightarrow> prediction (db p) = Some predictions
   \<Longrightarrow> cell (db p) = Some cells
   \<Longrightarrow> update_latest_prediction p
         = Returned (logging_info (Updated_view ''prediction_latest'')
             ((logging_info (Updating_view ''prediction_latest'') p)
                \<lparr>db := (db p)\<lparr>prediction_latest :=
                          Some (latest_select (fst predictions) (fst cells))\<rparr>\<rparr>))"
  by (simp add: update_latest_prediction_def Let_def state_simps)

text \<open>
  Claim C6, as far as it holds. After a run of \<open>update_latest_prediction\<close> that
  returns, every row of the view has the greatest date of the predictions table; and
  under the two uniqueness constraints of the schema, for a prediction \<open>r\<close> of that
  date and its cell \<open>c\<close>, the view has exactly one row of that cell at the lead time
  of \<open>r\<close>: one row for each lead time of a cell, not one row for each cell.
\<close>

theorem latest_view_rows:
  assumes "update_latest_prediction p = Returned q"
    and "prediction (db p) = Some predictions" and "cell (db p) = Some cells"
    and "cell_pkey (fst cells)" and "prediction_unique (fst predictions)"
    and "r \<in> set (fst predictions)" and "max_date (fst predictions) = Some (p_date r)"
    and "c \<in> set (fst cells)" and "p_cell_id r = Some (cell_id c)"
  shows "\<exists>view. prediction_latest (db q) = Some view
           \<and> list_all (\<lambda>v. l_date v = max_date (fst predictions)) view
           \<and> length (rows_of_cell_at (cell_id c) (p_leadtime r) view) = 1"
proof -
  let ?view = "latest_select (fst predictions) (fst cells)"
  have "prediction_latest (db p) \<noteq> None"
  proof
    assume "prediction_latest (db p) = None"
    from update_latest_prediction_missing [OF this] assms(1) show False by simp
  qed
  then obtain old where "prediction_latest (db p) = Some old" by blast
  from update_latest_prediction_replaces [OF this assms(2,3)] assms(1)
  have "q = logging_info (Updated_view ''prediction_latest'')
             ((logging_info (Updating_view ''prediction_latest'') p)
                \<lparr>db := (db p)\<lparr>prediction_latest := Some ?view\<rparr>\<rparr>)"
    by simp
  then have "prediction_latest (db q) = Some ?view"
    by (simp add: state_simps)
  moreover have "list_all (\<lambda>v. l_date v = max_date (fst predictions)) ?view"
    by (simp add: list_all_iff latest_select_date)
  moreover have "length (rows_of_cell_at (cell_id c) (p_leadtime r) ?view) = 1"
    using assms(4-9) by (rule latest_select_one_row)
  ultimately show ?thesis by blast
qed

lemma ex_view_state:
  "update_latest_prediction refreshing_processor
     = Returned (logging_info (Updated_view ''prediction_latest'')
         ((logging_info (Updating_view ''prediction_latest'') refreshing_processor)
            \<lparr>db := (db refreshing_processor)\<lparr>prediction_latest :=
                      Some (latest_select (fst example_predictions)
                              (fst example_cells))\<rparr>\<rparr>))"
  by (rule update_latest_prediction_replaces [of _ "[]"])
     (simp_all add: refreshing_processor_def)

theorem latest_view_rows_witness:
  "\<exists>view. prediction_latest (db (state_of (update_latest_prediction refreshing_processor)))
             = Some view
         \<and> list_all (\<lambda>v. l_date v = Some 19675) view
         \<and> length (rows_of_cell_at 1 1 view) = 1
         \<and> length (rows_of_cell_at 1 2 view) = 1"
proof -
  let ?q = "state_of (update_latest_prediction refreshing_processor)"
  let ?r1 = "fst example_predictions ! 0" and ?r2 = "fst example_predictions ! 1"
  let ?c = "fst example_cells ! 0"
  have ret: "update_latest_prediction refreshing_processor = Returned ?q"
    by (simp add: ex_view_state)
  have t: "prediction (db refreshing_processor) = Some example_predictions"
          "cell (db refreshing_processor) = Some example_cells"
    by (simp_all add: refreshing_processor_def)
  have k: "cell_pkey (fst example_cells)" "prediction_unique (fst example_predictions)"
    by (simp_all add: cell_pkey_def prediction_unique_def ex_cell_rows example_predictions_def)
  have m: "max_date (fst example_predictions) = Some 19675"
    by (simp add: max_date_def example_predictions_def)
  have r1: "?r1 \<in> set (fst example_predictions)" and r2: "?r2 \<in> set (fst example_predictions)"
    by (simp_all add: example_predictions_def)
  have v: "p_date ?r1 = 19675" "p_date ?r2 = 19675"
          "p_leadtime ?r1 = 1" "p_leadtime ?r2 = 2"
          "p_cell_id ?r1 = Some 1" "p_cell_id ?r2 = Some 1"
    by (simp_all add: example_predictions_def)
  have c: "?c \<in> set (fst example_cells)" and ci: "cell_id ?c = 1"
    by (simp_all add: ex_cell_rows)
  have h1: "max_date (fst example_predictions) = Some (p_date ?r1)"
           "max_date (fst example_predictions) = Some (p_date ?r2)"
    by (simp_all only: m v)
  have h2: "p_cell_id ?r1 = Some (cell_id ?c)" "p_cell_id ?r2 = Some (cell_id ?c)"
    by (simp_all only: v ci)
  from latest_view_rows [OF ret t k r1 h1(1) c h2(1)]
  obtain v1 where v1: "prediction_latest (db ?q) = Some v1"
      "list_all (\<lambda>v. l_date v = max_date (fst example_predictions)) v1"
      "length (rows_of_cell_at (cell_id ?c) (p_leadtime ?r1) v1) = 1"
    by blast
  from latest_view_rows [OF ret t k r2 h1(2) c h2(2)]
  obtain v2 where v2: "prediction_latest (db ?q) = Some v2"
      "length (rows_of_cell_at (cell_id ?c) (p_leadtime ?r2) v2) = 1"
    by blast
  from v1(1) v2(1) have "v2 = v1" by simp
  with v1 v2 have "prediction_latest (db ?q) = Some v1
      \<and> list_all (\<lambda>v. l_date v = Some 19675) v1
      \<and> length (rows_of_cell_at 1 1 v1) = 1
      \<and> length (rows_of_cell_at 1 2 v1) = 1"
    by (simp only: m v ci simp_thms)
  then show ?thesis by (rule exI)
qed

lemma ex_view_cells:
  "map l_cell_id (latest_select (fst example_predictions) (fst example_cells))
     = [Some 1, Some 1]"
  by (simp add: ex_cell_rows example_predictions_def latest_select_def full_outer_join_def
        max_date_def where_date_def group_by_def select_columns_def row_number_def
        enumerate_eq_zip)

text \<open>
  Claim C6 as stated fails where a cell has predictions at two lead times on the
  latest date: the view then has two rows for that cell.
\<close>

theorem latest_view_two_rows_for_a_cell:
  "exception_of (update_latest_prediction refreshing_processor) = None
   \<and> prediction_latest (db (state_of (update_latest_prediction refreshing_processor)))
       = Some (latest_select (fst example_predictions) (fst example_cells))
   \<and> length (rows_of_cell 1 (latest_select (fst example_predictions) (fst example_cells))) = 2"
proof -
  have "length (rows_of_cell 1 (latest_select (fst example_predictions) (fst example_cells)))
          = length (filter (\<lambda>a. a = Some 1)
              (map l_cell_id (latest_select (fst example_predictions) (fst example_cells))))"
    by (simp add: rows_of_cell_def filter_map comp_def)
  also have "\<dots> = 2" by (simp only: ex_view_cells) simp
  finally show ?thesis by (simp add: ex_view_state state_simps)
qed

subsection \<open>The Cell Resolver\<close>

lemma to_numeric_nth:
  "i < length column
   \<Longrightarrow> to_numeric_downcast_integer column ! i = column ! i
       \<or> to_numeric_downcast_integer column ! i = of_int (py_int (column ! i))"
  by (simp add: to_numeric_downcast_integer_def Let_def)

text \<open>
  The metre columns of a record: the coordinate times 1000, either as it is or
  truncated.
\<close>

lemma df_predictions_metres:
  assumes "l \<in> set (df_predictions ds)"
  shows "(xc_m l = 1000 * xc (row l) \<or> xc_m l = of_int (centroid_m (xc (row l))))
         \<and> (yc_m l = 1000 * yc (row l) \<or> yc_m l = of_int (centroid_m (yc (row l))))"
proof -
  let ?rows = "dropna (map xr_where (to_dataframe ds))"
  let ?xs = "to_numeric_downcast_integer (map (\<lambda>e. 1000 * xc e) ?rows)"
  let ?ys = "to_numeric_downcast_integer (map (\<lambda>e. 1000 * yc e) ?rows)"
  from assms have "l \<in> set (map (\<lambda>(e, x, y). \<lparr>row = e, xc_m = x, yc_m = y\<rparr>)
                              (zip ?rows (zip ?xs ?ys)))"
    by (simp add: df_predictions_def Let_def)
  then obtain e x y where exy: "(e, x, y) \<in> set (zip ?rows (zip ?xs ?ys))"
      "l = \<lparr>row = e, xc_m = x, yc_m = y\<rparr>"
    by auto
  from exy(1) obtain i where i: "i < length ?rows" "e = ?rows ! i" "(x, y) = zip ?xs ?ys ! i"
    by (auto simp: in_set_zip)
  from i(1,3) have xy: "x = ?xs ! i" "y = ?ys ! i"
    by (simp_all add: length_to_numeric)
  from i(1) have "i < length (map (\<lambda>e. 1000 * xc e) ?rows)"
                 "i < length (map (\<lambda>e. 1000 * yc e) ?rows)"
    by simp_all
  from to_numeric_nth [OF this(1)] to_numeric_nth [OF this(2)] i(1,2) xy
  have "(x = 1000 * xc e \<or> x = of_int (py_int (1000 * xc e)))
        \<and> (y = 1000 * yc e \<or> y = of_int (py_int (1000 * yc e)))"
    by simp
  with exy(2) show ?thesis by (simp add: centroid_m_def)
qed

lemma pd_merge_match:
  "(l, Some k) \<in> set (pd_merge left right)
   \<longleftrightarrow> l \<in> set left \<and> k \<in> set right \<and> key_matches l k"
proof
  assume "(l, Some k) \<in> set (pd_merge left right)"
  then obtain x where x: "x \<in> set left"
      "(l, Some k) \<in> set (case filter (key_matches x) right of
                             [] \<Rightarrow> [(x, None)]
                           | ms \<Rightarrow> map (\<lambda>m. (x, Some m)) ms)"
    by (auto simp: pd_merge_def)
  from x(2) have "l = x \<and> k \<in> set (filter (key_matches x) right)"
    by (cases "filter (key_matches x) right") auto
  with x(1) show "l \<in> set left \<and> k \<in> set right \<and> key_matches l k" by simp
next
  assume a: "l \<in> set left \<and> k \<in> set right \<and> key_matches l k"
  let ?F = "\<lambda>l. case filter (key_matches l) right of
                   [] \<Rightarrow> [(l, None)]
                 | ms \<Rightarrow> map (\<lambda>m. (l, Some m)) ms"
  from a have "k \<in> set (filter (key_matches l) right)" by simp
  then have "(l, Some k) \<in> set (?F l)"
    by (cases "filter (key_matches l) right") auto
  with a have "\<exists>x \<in> set left. (l, Some k) \<in> set (?F x)" by blast
  then show "(l, Some k) \<in> set (pd_merge left right)"
    unfolding pd_merge_def set_concat set_map by blast
qed

text \<open>
  The half of claim C1 that holds: a record that the merge resolves has the centroid of
  its cell as its truncated coordinates.
\<close>

lemma resolved_cell_matches_truncation:
  assumes "(l, Some k) \<in> set (pd_merge (df_predictions ds) (df_cells cells))"
  shows "\<exists>c \<in> set cells. k = (cell_id c, centroid_x c, centroid_y c)
           \<and> centroid_x c = centroid_m (xc (row l))
           \<and> centroid_y c = centroid_m (yc (row l))"
proof -
  from assms have m: "l \<in> set (df_predictions ds)" "k \<in> set (df_cells cells)"
      "key_matches l k"
    by (simp_all add: pd_merge_match)
  from m(2) obtain c where c: "c \<in> set cells" "k = (cell_id c, centroid_x c, centroid_y c)"
    by (auto simp: df_cells_def)
  from m(3) c(2) have k: "xc_m l = of_int (centroid_x c)" "yc_m l = of_int (centroid_y c)"
    by (simp_all add: key_matches_def)
  have x: "centroid_x c = centroid_m (xc (row l))"
  proof -
    from df_predictions_metres [OF m(1)] k(1)
    consider "1000 * xc (row l) = of_int (centroid_x c)"
      | "(of_int (centroid_m (xc (row l))) :: rat) = of_int (centroid_x c)"
      by auto
    then show ?thesis
    proof cases
      case 1
      then show ?thesis by (simp add: centroid_m_def py_int_of_int)
    next
      case 2
      then show ?thesis by simp
    qed
  qed
  have y: "centroid_y c = centroid_m (yc (row l))"
  proof -
    from df_predictions_metres [OF m(1)] k(2)
    consider "1000 * yc (row l) = of_int (centroid_y c)"
      | "(of_int (centroid_m (yc (row l))) :: rat) = of_int (centroid_y c)"
      by auto
    then show ?thesis
    proof cases
      case 1
      then show ?thesis by (simp add: centroid_m_def py_int_of_int)
    next
      case 2
      then show ?thesis by simp
    qed
  qed
  from x y have "centroid_x c = centroid_m (xc (row l)) \<and> centroid_y c = centroid_m (yc (row l))"
    by simp
  with c show ?thesis by blast
qed

text \<open>
  And the other half on a grid of whole metres: there a record whose truncated
  coordinates are the centroid of a cell is resolved to that cell.
\<close>

lemma whole_metres_resolved:
  assumes "l \<in> set (df_predictions ds)" and "c \<in> set cells"
    and "1000 * xc (row l) \<in> \<int>" and "1000 * yc (row l) \<in> \<int>"
    and "centroid_x c = centroid_m (xc (row l))"
    and "centroid_y c = centroid_m (yc (row l))"
  shows "(l, Some (cell_id c, centroid_x c, centroid_y c))
           \<in> set (pd_merge (df_predictions ds) (df_cells cells))"
proof -
  from assms(3) obtain a where a: "1000 * xc (row l) = of_int a" by (auto elim: Ints_cases)
  from assms(4) obtain b where b: "1000 * yc (row l) = of_int b" by (auto elim: Ints_cases)
  have "centroid_m (xc (row l)) = a" "centroid_m (yc (row l)) = b"
    by (simp_all add: centroid_m_def a b py_int_of_int)
  with df_predictions_metres [OF assms(1)] a b assms(5,6)
  have "key_matches l (cell_id c, centroid_x c, centroid_y c)"
    by (auto simp: key_matches_def)
  moreover have "(cell_id c, centroid_x c, centroid_y c) \<in> set (df_cells cells)"
    using assms(2) by (auto simp: df_cells_def)
  ultimately show ?thesis using assms(1) by (simp add: pd_merge_match)
qed

lemma floor_rat_numeral:
  "\<lfloor>(numeral a :: rat) / numeral b\<rfloor> = numeral a div numeral b"
  "\<lfloor>(1 :: rat) / numeral b\<rfloor> = 1 div numeral b"
  using floor_divide_of_int_eq [of "numeral a" "numeral b", where ?'a = rat]
        floor_divide_of_int_eq [of 1 "numeral b", where ?'a = rat]
  by simp_all

lemma sub_recs:
  "cell_geometries [1 / 2048, 10] [0, 10]
     = Inr (records 4000 5000 [1 / 2048, 10] [0, 10])"
  by (simp add: cell_geometries_def mean_step_size_def delta_m_def py_int_def floor_rat_numeral)

lemma sub_cells:
  "df_cells (fst (fold insert_cell (records 4000 5000 [1 / 2048, 10] [0, 10]) ([], 0)))
     = [(1, 0, 0), (2, 0, 10000), (3, 10000, 0), (4, 10000, 10000)]"
  by (simp add: records_def geometry_record_def centroid_m_def py_int_def floor_rat_numeral
        insert_cell_def cell_conflict_def df_cells_def Let_def)

lemma sub_truncated:
  "map (\<lambda>e. (centroid_m (xc e), centroid_m (yc e))) submetre_entries
     = [(0, 0), (0, 10000), (10000, 0), (10000, 10000)]"
  by (simp add: submetre_entries_def centroid_m_def py_int_def floor_rat_numeral)

lemma sub_rows:
  "dropna (map xr_where submetre_entries)
     = [submetre_entries ! 0, submetre_entries ! 1, submetre_entries ! 2, submetre_entries ! 3]"
  by (simp add: submetre_entries_def dropna_def xr_where_def mean_positive_def notna_def)

lemma sub_columns:
  "to_numeric_downcast_integer [125 / 256, 125 / 256, 10000, 10000]
     = [125 / 256, 125 / 256, 10000, 10000]"
  "to_numeric_downcast_integer [0, 10000, 0, 10000] = [0, 10000, 0, 10000]"
  by (simp_all add: to_numeric_downcast_integer_def allclose_def atol_def py_int_def
        floor_rat_numeral)

lemma sub_df:
  "df_predictions submetre_dataset
     = [\<lparr>row = submetre_entries ! 0, xc_m = 125 / 256, yc_m = 0\<rparr>,
        \<lparr>row = submetre_entries ! 1, xc_m = 125 / 256, yc_m = 10000\<rparr>,
        \<lparr>row = submetre_entries ! 2, xc_m = 10000, yc_m = 0\<rparr>,
        \<lparr>row = submetre_entries ! 3, xc_m = 10000, yc_m = 10000\<rparr>]"
proof -
  have x: "map (\<lambda>e. 1000 * xc e) [submetre_entries ! 0, submetre_entries ! 1,
                                     submetre_entries ! 2, submetre_entries ! 3]
             = [125 / 256, 125 / 256, 10000, 10000]"
    and y: "map (\<lambda>e. 1000 * yc e) [submetre_entries ! 0, submetre_entries ! 1,
                                      submetre_entries ! 2, submetre_entries ! 3]
              = [0, 10000, 0, 10000]"
    by (simp_all add: submetre_entries_def)
  have "df_predictions submetre_dataset
          = map (\<lambda>(e, x, y). \<lparr>row = e, xc_m = x, yc_m = y\<rparr>)
              (zip [submetre_entries ! 0, submetre_entries ! 1,
                    submetre_entries ! 2, submetre_entries ! 3]
                 (zip [125 / 256, 125 / 256, 10000, 10000] [0, 10000, 0, 10000]))"
    by (simp only: df_predictions_def Let_def submetre_dataset_def dataset.select_convs
                   sub_rows x y sub_columns)
  then show ?thesis by simp
qed

lemma sub_merge:
  "pd_merge (df_predictions submetre_dataset)
     [(1, 0, 0), (2, 0, 10000), (3, 10000, 0), (4, 10000, 10000)]
     = [(\<lparr>row = submetre_entries ! 0, xc_m = 125 / 256, yc_m = 0\<rparr>, None),
        (\<lparr>row = submetre_entries ! 1, xc_m = 125 / 256, yc_m = 10000\<rparr>, None),
        (\<lparr>row = submetre_entries ! 2, xc_m = 10000, yc_m = 0\<rparr>, Some (3, 10000, 0)),
        (\<lparr>row = submetre_entries ! 3, xc_m = 10000, yc_m = 10000\<rparr>,
         Some (4, 10000, 10000))]"
  by (simp add: sub_df pd_merge_def key_matches_def)


text \<open>
  On the sub-metre grid every geometry record is accepted; of the merged records the
  first has no cell, so the first chunk of the predictions is refused.
\<close>

lemma sub_accepted:
  "list_all geometry_accepted (records 4000 5000 [1 / 2048, 10] [0, 10])"
  by (simp add: records_def geometry_record_def centroid_m_def py_int_def floor_rat_numeral
        geometry_accepted_def int4_def Let_def)

lemma sub_refused:
  "\<not> list_all prediction_accepted
        (pd_merge (df_predictions submetre_dataset)
           [(1, 0, 0), (2, 0, 10000), (3, 10000, 0), (4, 10000, 10000)])"
  "takeWhile (list_all prediction_accepted)
     (batches (pd_merge (df_predictions submetre_dataset)
                 [(1, 0, 0), (2, 0, 10000), (3, 10000, 0), (4, 10000, 10000)]) 3) = []"
  by (simp_all add: sub_merge batches_step batches_Nil prediction_accepted_def)

text \<open>
  Claim C1 on the sub-metre grid, from a new database. \<open>update_geometries\<close> stores
  the four cells; the first two entries of the dataset truncate to \<open>(0, 0)\<close> and
  \<open>(0, 10000)\<close>, the centroids of the cells 1 and 2. The resolver leaves the column
  \<open>xc_m\<close> as it is, since \<open>125/256\<close> is not a whole number: the two entries find no
  cell in the merge. Their \<open>cell_id\<close> is NaN, the insert of the first of them is
  refused, and \<open>update_predictions\<close> raises with no prediction written.
\<close>

theorem resolver_misses_truncated_centroid:
  "df_cells (cell_rows (db (state_of (update_geometries submetre_processor))))
     = [(1, 0, 0), (2, 0, 10000), (3, 10000, 0), (4, 10000, 10000)]
   \<and> map (\<lambda>e. (centroid_m (xc e), centroid_m (yc e))) (to_dataframe submetre_dataset)
       = [(0, 0), (0, 10000), (10000, 0), (10000, 10000)]
   \<and> map snd (pd_merge (df_predictions submetre_dataset)
                 (df_cells (cell_rows (db (state_of (update_geometries submetre_processor))))))
       = [None, None, Some (3, 10000, 0), Some (4, 10000, 10000)]
   \<and> exception_of (update_predictions (state_of (update_geometries submetre_processor)))
       = Some NumericValueOutOfRange
   \<and> prediction_rows (db (state_of (update_predictions
         (state_of (update_geometries submetre_processor))))) = []"
proof -
  let ?recs = "records 4000 5000 [1 / 2048, 10] [0, 10]"
  let ?geom = "fold insert_cell ?recs ([], 0)"
  let ?q = "state_of (update_geometries submetre_processor)"
  have h: "xr submetre_processor = Some submetre_dataset"
      "cell_geometries (xc_values submetre_dataset) (yc_values submetre_dataset) = Inr ?recs"
      "batch_size submetre_processor \<noteq> 0"
    by (simp_all add: submetre_processor_def Processor_def submetre_dataset_def sub_recs)
  have c0: "create_table_if_not_exists (cell (db submetre_processor)) = ([], 0)"
    by (simp add: submetre_processor_def Processor_def fresh_database_def
                  create_table_if_not_exists_def)
  from update_geometries_accepted(2) [OF h sub_accepted]
  have cq: "cell (db ?q) = Some ?geom" by (simp add: c0)
  from update_geometries_loop [OF h]
  have f: "xr ?q = xr submetre_processor" "batch_size ?q = batch_size submetre_processor"
      "prediction (db ?q) = prediction (db submetre_processor)"
    by blast+
  have b: "batch_size ?q = 3"
    unfolding f(2) by (simp add: submetre_processor_def Processor_def)
  have t0: "create_table_if_not_exists (prediction (db ?q)) = ([], 0)"
    unfolding f(3)
    by (simp add: submetre_processor_def Processor_def fresh_database_def
                  create_table_if_not_exists_def)
  have cells: "df_cells (cell_rows (db ?q))
                 = [(1, 0, 0), (2, 0, 10000), (3, 10000, 0), (4, 10000, 10000)]"
    by (simp add: cell_rows_def cq sub_cells)
  have h': "xr ?q = Some submetre_dataset" "cell (db ?q) = Some ?geom" "batch_size ?q \<noteq> 0"
    unfolding f(1) b using h(1) cq by simp_all
  from update_predictions_loop [OF h'] obtain s where
    q': "prediction (db (state_of (update_predictions ?q)))
           = Some (fst (fold insert_prediction_row
                          (map insert_values
                             (concat (takeWhile (list_all prediction_accepted)
                                (batches (pd_merge (df_predictions submetre_dataset)
                                            (df_cells (fst ?geom)))
                                   (batch_size ?q)))))
                          (create_table_if_not_exists (prediction (db ?q)))), s)"
        "exception_of (update_predictions ?q)
           = (if list_all prediction_accepted
                   (pd_merge (df_predictions submetre_dataset) (df_cells (fst ?geom)))
              then None else Some NumericValueOutOfRange)"
    by blast
  from q'(2) have raised: "exception_of (update_predictions ?q) = Some NumericValueOutOfRange"
    by (simp add: sub_cells sub_refused(1))
  from q'(1) have rows: "prediction_rows (db (state_of (update_predictions ?q))) = []"
    by (simp add: prediction_rows_def sub_cells b sub_refused(2) t0)
  have merged: "map snd (pd_merge (df_predictions submetre_dataset) (df_cells (cell_rows (db ?q))))
                  = [None, None, Some (3, 10000, 0), Some (4, 10000, 10000)]"
    by (simp add: cells sub_merge)
  have trunc: "map (\<lambda>e. (centroid_m (xc e), centroid_m (yc e))) (to_dataframe submetre_dataset)
                 = [(0, 0), (0, 10000), (10000, 0), (10000, 10000)]"
    by (simp add: submetre_dataset_def sub_truncated)
  from cells trunc merged raised rows show ?thesis by simp
qed

subsection \<open>The constraints are kept\<close>

text \<open>
  The hypotheses of the theorems about the two tables hold in a new database and are
  kept by every method of the processor.
\<close>

lemma fresh_database_constraints:
  "serial_ahead fresh_database \<and> cell_pkey (cell_rows fresh_database)
   \<and> prediction_unique (prediction_rows fresh_database)"
  by (simp add: fresh_database_def serial_ahead_def cell_pkey_def prediction_unique_def
                cell_rows_def prediction_rows_def)

lemma load_db: "db (state_of (load inputBlob p)) = db p"
  by (cases "open_dataset inputBlob") (simp_all add: load_def Let_def state_simps)

lemma insert_cell_pkey: "cell_pkey (fst t) \<Longrightarrow> cell_pkey (fst (insert_cell r t))"
  by (cases r)
     (auto simp: insert_cell_def Let_def cell_pkey_def cell_conflict_def list_ex_iff)

lemma fold_insert_cell_pkey: "cell_pkey (fst t) \<Longrightarrow> cell_pkey (fst (fold insert_cell rs t))"
  by (induction rs arbitrary: t) (simp_all add: insert_cell_pkey)

lemma update_geometries_keeps_constraints:
  assumes "serial_ahead (db p)" and "cell_pkey (cell_rows (db p))"
  shows "serial_ahead (db (state_of (update_geometries p)))
         \<and> cell_pkey (cell_rows (db (state_of (update_geometries p))))
         \<and> prediction (db (state_of (update_geometries p))) = prediction (db p)
         \<and> prediction_latest (db (state_of (update_geometries p))) = prediction_latest (db p)"
proof -
  let ?t0 = "create_table_if_not_exists (cell (db p))"
  have ok: "cell_ids_from_sequence ?t0" using assms(1) by (rule create_table_keeps_ids)
  have pk: "cell_pkey (fst ?t0)" using assms(2) by (simp add: cell_rows_create)
  show ?thesis
  proof (cases p rule: update_geometries_cases)
    case (raises e q)
    with ok pk show ?thesis by (simp add: serial_ahead_def cell_rows_def)
  next
    case (loop ds recs)
    let ?done = "concat (takeWhile (list_all geometry_accepted) (batches recs (batch_size p)))"
    from update_geometries_loop [OF loop] obtain extra where
      q: "cell (db (state_of (update_geometries p)))
            = Some (fst (fold insert_cell ?done ?t0),
                    snd (fold insert_cell ?done ?t0) + int extra)"
         "prediction (db (state_of (update_geometries p))) = prediction (db p)"
         "prediction_latest (db (state_of (update_geometries p))) = prediction_latest (db p)"
      by blast
    from fold_insert_cell_keeps_ids [OF ok, of ?done]
    have "cell_ids_from_sequence (fst (fold insert_cell ?done ?t0),
                                  snd (fold insert_cell ?done ?t0) + int extra)"
      by (rule cell_ids_from_sequence_later) simp
    with q fold_insert_cell_pkey [OF pk, of ?done] show ?thesis
      by (simp add: serial_ahead_def cell_rows_def)
  qed
qed

lemma insert_prediction_row_unique:
  assumes "prediction_unique (fst t)"
  shows "prediction_unique (fst (insert_prediction_row v t))"
proof -
  obtain d l c m s where v: "v = (d, l, c, m, s)" by (cases v)
  show ?thesis
  proof (cases c)
    case None
    with assms show ?thesis
      by (simp add: v insert_prediction_row_def Let_def prediction_unique_def)
  next
    case (Some k)
    with assms show ?thesis
      by (auto simp: v insert_prediction_row_def Let_def prediction_unique_def
                     prediction_conflict_def list_ex_iff)
  qed
qed

lemma fold_insert_prediction_row_unique:
  "prediction_unique (fst t) \<Longrightarrow> prediction_unique (fst (fold insert_prediction_row vs t))"
  by (induction vs arbitrary: t) (simp_all add: insert_prediction_row_unique)

lemma update_predictions_keeps_constraints:
  assumes "prediction_unique (prediction_rows (db p))"
  shows "prediction_unique (prediction_rows (db (state_of (update_predictions p))))
         \<and> cell (db (state_of (update_predictions p))) = cell (db p)"
proof (cases "xr p = None \<or> cell (db p) = None \<or> batch_size p = 0")
  case True
  from update_predictions_raises [OF this] assms show ?thesis by auto
next
  case False
  then obtain ds geom where h: "xr p = Some ds" "cell (db p) = Some geom" "batch_size p \<noteq> 0"
    by auto
  let ?t0 = "create_table_if_not_exists (prediction (db p))"
  have "prediction_unique (fst ?t0)" using assms by (simp add: prediction_rows_create)
  from fold_insert_prediction_row_unique [OF this] update_predictions_loop [OF h]
  show ?thesis by (auto simp: prediction_rows_def)
qed

lemma update_latest_prediction_tables:
  "cell (db (state_of (update_latest_prediction p))) = cell (db p)
   \<and> prediction (db (state_of (update_latest_prediction p))) = prediction (db p)"
  by (simp add: update_latest_prediction_def Let_def state_simps
           split: option.splits prod.splits)

lemma invoke_keeps_constraints:
  assumes "serial_ahead (db p)" and "cell_pkey (cell_rows (db p))"
    and "prediction_unique (prediction_rows (db p))"
  shows "serial_ahead (db (state_of (invoke c p)))
         \<and> cell_pkey (cell_rows (db (state_of (invoke c p))))
         \<and> prediction_unique (prediction_rows (db (state_of (invoke c p))))"
proof (cases c)
  case (Load inputBlob)
  with assms show ?thesis by (simp add: load_db)
next
  case Update_geometries
  with update_geometries_keeps_constraints [OF assms(1,2)] assms(3) show ?thesis
    by (simp add: prediction_rows_def)
next
  case Update_predictions
  with update_predictions_keeps_constraints [OF assms(3)] assms(1,2) show ?thesis
    by (simp add: serial_ahead_def cell_rows_def)
next
  case Update_latest_prediction
  with update_latest_prediction_tables [of p] assms show ?thesis
    by (simp add: serial_ahead_def cell_rows_def prediction_rows_def)
qed

text \<open>
  So the constraints hold in every state that a processor reaches from a new database,
  by any calls in any order.
\<close>

lemma invoke_all_keeps_constraints:
  assumes "serial_ahead (db p)" and "cell_pkey (cell_rows (db p))"
    and "prediction_unique (prediction_rows (db p))"
  shows "serial_ahead (db (invoke_all calls p))
         \<and> cell_pkey (cell_rows (db (invoke_all calls p)))
         \<and> prediction_unique (prediction_rows (db (invoke_all calls p)))"
  using assms
proof (induction calls arbitrary: p)
  case Nil
  then show ?case by (simp add: invoke_all_def)
next
  case (Cons c calls)
  from invoke_keeps_constraints [OF Cons.prems, of c]
  have "serial_ahead (db (invoke_all calls (state_of (invoke c p))))
        \<and> cell_pkey (cell_rows (db (invoke_all calls (state_of (invoke c p)))))
        \<and> prediction_unique (prediction_rows (db (invoke_all calls (state_of (invoke c p)))))"
    by (intro Cons.IH) simp_all
  then show ?case by (simp add: invoke_all_def)
qed

lemma reachable_constraints:
  "serial_ahead (db (invoke_all calls (Processor b fresh_database clock)))
   \<and> cell_pkey (cell_rows (db (invoke_all calls (Processor b fresh_database clock))))
   \<and> prediction_unique
       (prediction_rows (db (invoke_all calls (Processor b fresh_database clock))))"
  using fresh_database_constraints
  by (intro invoke_all_keeps_constraints) (simp_all add: Processor_def)

end
